theory Spec2Isabelle
  imports Main "HOL-Library.Sublist" "HOL-Library.Word"
begin

section \<open>The job registry (server/index.js, \<open>activeJobs\<close>)\<close>

text \<open>
  \<open>activeJobs\<close> is a plain object from job identifiers to \<open>{ status }\<close> objects. A job
  identifier is built by \<open>createJobId\<close> from the socket id and the profile name. The three
  status strings the code ever stores are \<open>'running'\<close>, \<open>'paused'\<close> and \<open>'ended'\<close>.
\<close>

datatype status = Running | Paused | Ended

type_synonym registry = "string \<rightharpoonup> status"

definition createJobId :: "string \<Rightarrow> string \<Rightarrow> string" where
  "createJobId socketId profileName = socketId @ ''_'' @ profileName"

text \<open>
  The control handlers of one connection. Each handler builds the job identifier and
  assigns the status when \<open>activeJobs[jobId]\<close> is truthy; none of them reads the status
  that is stored there, none of them emits an event, and none of them throws.
\<close>

definition pauseJob :: "string \<Rightarrow> string \<Rightarrow> registry \<Rightarrow> registry" where
  "pauseJob socketId profileName activeJobs =
     (let jobId = createJobId socketId profileName
      in if activeJobs jobId \<noteq> None then activeJobs(jobId \<mapsto> Paused) else activeJobs)"

definition resumeJob :: "string \<Rightarrow> string \<Rightarrow> registry \<Rightarrow> registry" where
  "resumeJob socketId profileName activeJobs =
     (let jobId = createJobId socketId profileName
      in if activeJobs jobId \<noteq> None then activeJobs(jobId \<mapsto> Running) else activeJobs)"

definition endJob :: "string \<Rightarrow> string \<Rightarrow> registry \<Rightarrow> registry" where
  "endJob socketId profileName activeJobs =
     (let jobId = createJobId socketId profileName
      in if activeJobs jobId \<noteq> None then activeJobs(jobId \<mapsto> Ended) else activeJobs)"

text \<open>
  The \<open>disconnect\<close> handler deletes every key that starts with the socket id.
\<close>

definition disconnect :: "string \<Rightarrow> registry \<Rightarrow> registry" where
  "disconnect socketId activeJobs =
     (\<lambda>jobId. if prefix socketId jobId then None else activeJobs jobId)"

text \<open>
  The messages of these four handlers as data, so that a sequence of them can be
  replayed against the registry. A \<open>startBulkCreate\<close> message is not among them: its
  handler is the worker itself (\<open>startBulkCreate\<close> below), which registers the job,
  runs the batch and deletes the entry, and a second worker running on the same key
  beside the first is not modelled.
\<close>

datatype signal =
    PauseJob string string
  | ResumeJob string string
  | EndJob string string
  | Disconnect string

fun deliver :: "signal \<Rightarrow> registry \<Rightarrow> registry" where
  "deliver (PauseJob s p) r = pauseJob s p r"
| "deliver (ResumeJob s p) r = resumeJob s p r"
| "deliver (EndJob s p) r = endJob s p r"
| "deliver (Disconnect s) r = disconnect s r"

fun deliverAll :: "signal list \<Rightarrow> registry \<Rightarrow> registry" where
  "deliverAll [] r = r"
| "deliverAll (sg # sgs) r = deliverAll sgs (deliver sg r)"

text \<open>The status a control message writes into a present entry.\<close>

fun target :: "signal \<Rightarrow> status option" where
  "target (PauseJob s p) = Some Paused"
| "target (ResumeJob s p) = Some Running"
| "target (EndJob s p) = Some Ended"
| "target (Disconnect s) = None"

text \<open>The job a control message addresses.\<close>

fun addressed :: "signal \<Rightarrow> string option" where
  "addressed (PauseJob s p) = Some (createJobId s p)"
| "addressed (ResumeJob s p) = Some (createJobId s p)"
| "addressed (EndJob s p) = Some (createJobId s p)"
| "addressed (Disconnect s) = None"

section \<open>Suspension points and the interruptible delay\<close>

text \<open>
  The server runs on one thread: a control handler can only run while the worker is
  suspended in an \<open>await\<close> or between two timer callbacks. A schedule lists, for each
  suspension of the worker in order, the control messages that the event loop handles
  during that suspension. When the list is used up no further message arrives.
\<close>

type_synonym schedule = "signal list list"

definition suspend :: "registry \<Rightarrow> schedule \<Rightarrow> registry \<times> schedule" where
  "suspend r sch = (case sch of [] \<Rightarrow> (r, []) | sgs # rest \<Rightarrow> (deliverAll sgs r, rest))"

text \<open>The registry and the schedule after \<open>k\<close> suspensions.\<close>

fun elapse :: "nat \<Rightarrow> registry \<Rightarrow> schedule \<Rightarrow> registry \<times> schedule" where
  "elapse 0 r sch = (r, sch)"
| "elapse (Suc k) r sch = (case suspend r sch of (r', sch') \<Rightarrow> elapse k r' sch')"

text \<open>
  The test \<open>!activeJobs[jobId] || activeJobs[jobId].status === 'ended'\<close>, used by the
  worker loop and by the delay.
\<close>

definition stopped :: "registry \<Rightarrow> string \<Rightarrow> bool" where
  "stopped activeJobs jobId \<longleftrightarrow> activeJobs jobId = None \<or> activeJobs jobId = Some Ended"

text \<open>
  \<open>interruptibleSleep(ms, jobId)\<close>: for \<open>ms <= 0\<close> the promise resolves at once and no
  timer is created. Otherwise a 100 ms interval timer runs; each callback first tests the
  registry, then adds 100 to \<open>elapsed\<close> and tests it against \<open>ms\<close>. \<open>sleepLoop\<close> is the
  sequence of callbacks, one suspension before each. The result holds the registry, the
  rest of the schedule and the number of callbacks that ran.
\<close>

function sleepLoop ::
  "int \<Rightarrow> string \<Rightarrow> int \<Rightarrow> nat \<Rightarrow> registry \<Rightarrow> schedule \<Rightarrow> registry \<times> schedule \<times> nat" where
  "sleepLoop ms jobId elapsed ticks r sch =
     (case suspend r sch of (r', sch') \<Rightarrow>
        if stopped r' jobId then (r', sch', Suc ticks)
        else if ms \<le> elapsed + 100 then (r', sch', Suc ticks)
        else sleepLoop ms jobId (elapsed + 100) (Suc ticks) r' sch')"
  by pat_completeness auto
termination
  by (relation "measure (\<lambda>(ms, jobId, elapsed, ticks, r, sch). nat (ms - elapsed))") auto

definition interruptibleSleep ::
  "int \<Rightarrow> string \<Rightarrow> registry \<Rightarrow> schedule \<Rightarrow> registry \<times> schedule \<times> nat" where
  "interruptibleSleep ms jobId r sch =
     (if ms \<le> 0 then (r, sch, 0) else sleepLoop ms jobId 0 0 r sch)"

section \<open>Values exchanged with the upstream API\<close>

text \<open>
  Ticket numbers and ids arrive as JSON numbers or strings; the code converts them with
  \<open>String(...)\<close> or by template interpolation. Only integral numbers are modelled.
  Names and messages are strings of characters below U+0100; the code only compares,
  concatenates and searches them.
\<close>

datatype jsval = JNum int | JStr string

function showNat :: "nat \<Rightarrow> string" where
  "showNat n = (if n < 10 then [''0123456789'' ! n]
                else showNat (n div 10) @ [''0123456789'' ! (n mod 10)])"
  by pat_completeness auto
termination
  by (relation "measure id") auto

definition showInt :: "int \<Rightarrow> string" where
  "showInt k = (if k < 0 then ''-'' @ showNat (nat (- k)) else showNat (nat k))"

fun jsString :: "jsval \<Rightarrow> string" where
  "jsString (JNum k) = showInt k"
| "jsString (JStr s) = s"

text \<open>
  A recipient is a JavaScript string, a sequence of 16-bit code units; the worker trims
  it, so its characters matter beyond equality. \<open>utf16\<close> writes such a string from
  characters below U+0100.
\<close>

type_synonym ustring = "16 word list"

definition utf16 :: "string \<Rightarrow> ustring" where
  "utf16 s = map of_char s"

text \<open>Opaque JSON payloads are kept as their text.\<close>

type_synonym json = string

record ticket =
  ticketId :: jsval
  ticketNumber :: jsval

text \<open>
  What \<open>axios\<close> throws. \<open>errResponse\<close> is \<open>error.response\<close>, \<open>errRequest\<close> says
  whether \<open>error.request\<close> is set. A response body is a JSON object (of which only the
  \<open>message\<close> property matters), a string, or absent.
\<close>

datatype body = BodyObject "string option" | BodyText string | BodyAbsent

record httpResponse =
  respData :: body
  respStatus :: int
  respStatusText :: string

record jsError =
  errResponse :: "httpResponse option"
  errRequest :: bool
  errMessage :: string
  errStack :: string

datatype raw = RawBody body | RawText string

record parsedError =
  parsedMessage :: string
  parsedFull :: raw

text \<open>
  The regular expression \<open>/<title>(.*?)<\/title>/\<close>: the leftmost \<open><title>\<close> that is
  followed, with no line terminator in between, by \<open></title>\<close>; the group is the shortest
  such text.
\<close>

fun untilClose :: "string \<Rightarrow> string option" where
  "untilClose [] = None"
| "untilClose (c # cs) =
     (if prefix ''</title>'' (c # cs) then Some []
      else if c = CHR 0x0A \<or> c = CHR 0x0D then None
      else map_option ((#) c) (untilClose cs))"

fun matchTitle :: "string \<Rightarrow> string option" where
  "matchTitle [] = None"
| "matchTitle (c # cs) =
     (if prefix ''<title>'' (c # cs) then
        (case untilClose (drop 7 (c # cs)) of
           Some title \<Rightarrow> Some title
         | None \<Rightarrow> matchTitle cs)
      else matchTitle cs)"

definition truthyStr :: "string option \<Rightarrow> bool" where
  "truthyStr v \<longleftrightarrow> (case v of None \<Rightarrow> False | Some s \<Rightarrow> s \<noteq> [])"

definition parseError :: "jsError \<Rightarrow> parsedError" where
  "parseError error =
     (case errResponse error of
        Some response \<Rightarrow>
          (case respData response of
             BodyObject (Some m) \<Rightarrow>
               if m \<noteq> [] then \<lparr>parsedMessage = m, parsedFull = RawBody (respData response)\<rparr>
               else \<lparr>parsedMessage = ''HTTP Error '' @ showInt (respStatus response) @ '': ''
                                        @ respStatusText response,
                     parsedFull = RawBody (respData response)\<rparr>
           | BodyObject None \<Rightarrow>
               \<lparr>parsedMessage = ''HTTP Error '' @ showInt (respStatus response) @ '': ''
                                   @ respStatusText response,
                parsedFull = RawBody (respData response)\<rparr>
           | BodyText s \<Rightarrow>
               if sublist ''<title>'' s then
                 \<lparr>parsedMessage = ''Zoho Server Error: '' @
                    (case matchTitle s of Some title \<Rightarrow> title
                                        | None \<Rightarrow> ''HTML Error Page Received''),
                  parsedFull = RawBody (respData response)\<rparr>
               else
                 \<lparr>parsedMessage = ''HTTP Error '' @ showInt (respStatus response) @ '': ''
                                     @ respStatusText response,
                  parsedFull = (if s \<noteq> [] then RawBody (respData response)
                                else RawText (respStatusText response))\<rparr>
           | BodyAbsent \<Rightarrow>
               \<lparr>parsedMessage = ''HTTP Error '' @ showInt (respStatus response) @ '': ''
                                   @ respStatusText response,
                parsedFull = RawText (respStatusText response)\<rparr>)
      | None \<Rightarrow>
          if errRequest error then
            \<lparr>parsedMessage = ''Network Error: No response received from Zoho API.'',
             parsedFull = RawText (errMessage error)\<rparr>
          else
            \<lparr>parsedMessage = (if errMessage error \<noteq> [] then errMessage error
                               else ''An unknown error occurred.''),
             parsedFull = RawText (errStack error)\<rparr>)"

record profile =
  profileName :: string
  orgId :: string
  defaultDepartmentId :: string
  clientId :: string
  clientSecret :: string
  refreshToken :: string
  fromEmailAddress :: "string option"

section \<open>Events and the trace of a batch\<close>

text \<open>
  The payload of \<open>startBulkCreate\<close>. \<open>delay\<close> is in seconds; the client sends the result
  of \<open>parseInt\<close>, an integer.
\<close>

record bulkRequest =
  emails :: "ustring list"
  subject :: string
  description :: string
  delay :: int
  selectedProfileName :: string
  sendDirectReply :: bool
  verifyEmail :: bool

text \<open>
  \<open>fullResponse\<close> of a \<open>ticketResult\<close> event: either \<open>{ ticketCreate, sendReply? }\<close>, where
  \<open>sendReply\<close> is the reply's response data or \<open>{ error: parseError(replyError) }\<close>, or the
  \<open>fullResponse\<close> of the parsed creation error.
\<close>

datatype replyOutcome = ReplyData json | ReplyError parsedError

datatype resultPayload = Created ticket "replyOutcome option" | CreateFailed raw

record ticketResult =
  trEmail :: ustring
  trSuccess :: bool
  trTicketNumber :: "jsval option"
  trDetails :: "string option"
  trError :: "string option"
  trFullResponse :: resultPayload
  trProfileName :: string

datatype event =
    TicketResult ticketResult
  | BulkError string string
  | BulkEnded string
  | BulkComplete string

text \<open>
  What a batch does, in order: waits, upstream calls, log writes, emitted events and
  launched verifications. The index is the loop variable \<open>i\<close>.
\<close>

datatype action =
    PausePoll nat
  | Sleep nat int nat
  | CreateCall nat ustring
  | LogWrite jsval ustring
  | ReplyCall nat jsval ustring
  | Emit event
  | Verify ticket

text \<open>
  The outcome of the upstream calls the worker makes for index \<open>i\<close>: \<open>makeApiCall\<close>
  either returns a response or throws (a token refresh failure included). The data of a
  successful create response is taken to be a ticket object with its \<open>id\<close> and
  \<open>ticketNumber\<close>.
\<close>

record upstream =
  createTicket :: "nat \<Rightarrow> jsError + ticket"
  sendReply :: "nat \<Rightarrow> jsError + json"

section \<open>The batch worker (\<open>startBulkCreate\<close>)\<close>

text \<open>
  \<open>email.trim()\<close> removes from both ends the code units that ECMAScript counts as
  white space or line terminators: TAB, LF, VT, FF, CR, SPACE, NO-BREAK SPACE, U+1680,
  U+2000 to U+200A, U+2028, U+2029, U+202F, U+205F, U+3000 and U+FEFF. An entry is
  blank when nothing is left.
\<close>

definition isSpace :: "16 word \<Rightarrow> bool" where
  "isSpace c \<longleftrightarrow>
     c \<in> {0x0009, 0x000A, 0x000B, 0x000C, 0x000D, 0x0020, 0x00A0, 0x1680,
          0x2028, 0x2029, 0x202F, 0x205F, 0x3000, 0xFEFF}
     \<or> (0x2000 \<le> c \<and> c \<le> 0x200A)"

definition trim :: "ustring \<Rightarrow> ustring" where
  "trim s = rev (dropWhile isSpace (rev (dropWhile isSpace s)))"

text \<open>
  The pause loop \<open>while (activeJobs[jobId]?.status === 'paused') await 500 ms\<close>. Each
  wait is one suspension. When the schedule is used up while the job is paused, nothing
  can end the loop: it does not return, which is the value \<open>None\<close>.
\<close>

fun pausePoll ::
  "string \<Rightarrow> nat \<Rightarrow> registry \<Rightarrow> schedule \<Rightarrow> (action list \<times> registry \<times> schedule) option" where
  "pausePoll jobId i r [] = (if r jobId = Some Paused then None else Some ([], r, []))"
| "pausePoll jobId i r (sgs # rest) =
     (if r jobId = Some Paused then
        map_option (\<lambda>(tr, st). (PausePoll i # tr, st)) (pausePoll jobId i (deliverAll sgs r) rest)
      else Some ([], r, sgs # rest))"

text \<open>
  The body of the inner \<open>try\<close> for one non-blank recipient: the create call, the log
  write, the optional reply call, the one \<open>ticketResult\<close> event and the optional launch
  of the verification. Each awaited upstream call is one suspension. The registry is not
  read here.
\<close>

definition processEmail ::
  "bulkRequest \<Rightarrow> profile \<Rightarrow> upstream \<Rightarrow> nat \<Rightarrow> ustring \<Rightarrow> registry \<Rightarrow> schedule
     \<Rightarrow> action list \<times> registry \<times> schedule" where
  "processEmail d activeProfile up i email r sch =
     (case suspend r sch of (r1, sch1) \<Rightarrow>
       (case createTicket up i of
          Inl error \<Rightarrow>
            ([CreateCall i email,
              Emit (TicketResult \<lparr>trEmail = email, trSuccess = False, trTicketNumber = None,
                      trDetails = None, trError = Some (parsedMessage (parseError error)),
                      trFullResponse = CreateFailed (parsedFull (parseError error)),
                      trProfileName = selectedProfileName d\<rparr>)],
             r1, sch1)
        | Inr newTicket \<Rightarrow>
            (let created = ''Ticket #'' @ jsString (ticketNumber newTicket) @ '' created'';
                 verify = (if verifyEmail d then [Verify newTicket] else [])
             in if sendDirectReply d then
                  (case suspend r1 sch1 of (r2, sch2) \<Rightarrow>
                     (case sendReply up i of
                        Inr replyData \<Rightarrow>
                          ([CreateCall i email, LogWrite (ticketNumber newTicket) email,
                            ReplyCall i (ticketId newTicket) email,
                            Emit (TicketResult \<lparr>trEmail = email, trSuccess = True,
                                    trTicketNumber = Some (ticketNumber newTicket),
                                    trDetails = Some (created @ '' and reply sent.''),
                                    trError = None,
                                    trFullResponse = Created newTicket (Some (ReplyData replyData)),
                                    trProfileName = selectedProfileName d\<rparr>)] @ verify,
                           r2, sch2)
                      | Inl replyError \<Rightarrow>
                          ([CreateCall i email, LogWrite (ticketNumber newTicket) email,
                            ReplyCall i (ticketId newTicket) email,
                            Emit (TicketResult \<lparr>trEmail = email, trSuccess = False,
                                    trTicketNumber = Some (ticketNumber newTicket),
                                    trDetails = Some (created @ '', but reply failed: ''
                                                      @ parsedMessage (parseError replyError)),
                                    trError = None,
                                    trFullResponse =
                                      Created newTicket (Some (ReplyError (parseError replyError))),
                                    trProfileName = selectedProfileName d\<rparr>)] @ verify,
                           r2, sch2)))
                else
                  ([CreateCall i email, LogWrite (ticketNumber newTicket) email,
                    Emit (TicketResult \<lparr>trEmail = email, trSuccess = True,
                            trTicketNumber = Some (ticketNumber newTicket),
                            trDetails = Some (created @ ''.''),
                            trError = None,
                            trFullResponse = Created newTicket None,
                            trProfileName = selectedProfileName d\<rparr>)] @ verify,
                   r1, sch1))))"

text \<open>
  The inter-item delay of iteration \<open>i\<close>:
  \<open>if (i > 0 && delay > 0) await interruptibleSleep(delay * 1000, jobId)\<close>.
\<close>

definition itemDelay ::
  "string \<Rightarrow> bulkRequest \<Rightarrow> nat \<Rightarrow> registry \<Rightarrow> schedule \<Rightarrow> action list \<times> registry \<times> schedule" where
  "itemDelay jobId d i r sch =
     (if 0 < i \<and> 0 < delay d then
        (case interruptibleSleep (delay d * 1000) jobId r sch of
           (r', sch', ticks) \<Rightarrow> ([Sleep i (delay d * 1000) ticks], r', sch'))
      else ([], r, sch))"

text \<open>Putting the actions done so far in front of the trace of what follows.\<close>

definition after :: "action list \<Rightarrow> (action list \<times> 'a) option \<Rightarrow> (action list \<times> 'a) option" where
  "after pre res = map_option (\<lambda>(tr, st). (pre @ tr, st)) res"

text \<open>
  The \<open>for\<close> loop over \<open>emails\<close>, from index \<open>i\<close> with the remaining recipients: the entry
  test, the pause loop, the delay, the second test, the blank test (\<open>continue\<close>), the
  recipient's processing.
\<close>

fun bulkLoop ::
  "string \<Rightarrow> bulkRequest \<Rightarrow> profile \<Rightarrow> upstream \<Rightarrow> nat \<Rightarrow> ustring list \<Rightarrow> registry \<Rightarrow> schedule
     \<Rightarrow> (action list \<times> registry \<times> schedule) option" where
  "bulkLoop jobId d activeProfile up i [] r sch = Some ([], r, sch)"
| "bulkLoop jobId d activeProfile up i (email # rest) r sch =
     (if stopped r jobId then Some ([], r, sch)
      else
        (case pausePoll jobId i r sch of
           None \<Rightarrow> None
         | Some (polls, r1, sch1) \<Rightarrow>
             (case itemDelay jobId d i r1 sch1 of (slept, r2, sch2) \<Rightarrow>
                if stopped r2 jobId then Some (polls @ slept, r2, sch2)
                else if trim email = [] then
                  after (polls @ slept) (bulkLoop jobId d activeProfile up (Suc i) rest r2 sch2)
                else
                  (case processEmail d activeProfile up i email r2 sch2 of (acts, r3, sch3) \<Rightarrow>
                     after (polls @ slept @ acts)
                       (bulkLoop jobId d activeProfile up (Suc i) rest r3 sch3)))))"

text \<open>
  The \<open>finally\<close> block: when the entry still exists, one of \<open>bulkEnded\<close> and
  \<open>bulkComplete\<close> is emitted and the entry is deleted.
\<close>

definition finish :: "string \<Rightarrow> string \<Rightarrow> registry \<Rightarrow> action list \<times> registry" where
  "finish jobId name r =
     (case r jobId of
        None \<Rightarrow> ([], r)
      | Some finalStatus \<Rightarrow>
          ([Emit (if finalStatus = Ended then BulkEnded name else BulkComplete name)],
           r(jobId := None)))"

text \<open>
  The outer \<open>try\<close> block. \<open>Inl msg\<close> is an \<open>Error\<close> thrown with that message; the two
  \<open>throw\<close> statements of the setup are the only ones, and the loop itself does not throw
  on a list of strings.
\<close>

definition bulkTry ::
  "string \<Rightarrow> bulkRequest \<Rightarrow> profile list \<Rightarrow> upstream \<Rightarrow> registry \<Rightarrow> schedule
     \<Rightarrow> (string option \<times> action list \<times> registry \<times> schedule) option" where
  "bulkTry jobId d profiles up r sch =
     (case find (\<lambda>p. profileName p = selectedProfileName d) profiles of
        None \<Rightarrow> Some (Some ''Profile not found.'', [], r, sch)
      | Some activeProfile \<Rightarrow>
          if sendDirectReply d \<and> \<not> truthyStr (fromEmailAddress activeProfile) then
            Some (Some (''Profile '' @ [CHR 0x22] @ selectedProfileName d @ [CHR 0x22]
                        @ '' is missing '' @ [CHR 0x22] @ ''fromEmailAddress'' @ [CHR 0x22] @ ''.''),
                  [], r, sch)
          else
            map_option (\<lambda>(tr, st). (None, tr, st))
              (bulkLoop jobId d activeProfile up 0 (emails d) r sch))"

text \<open>
  The handler: register the job, run the \<open>try\<close> block, emit \<open>bulkError\<close> in \<open>catch\<close>
  (\<open>error.message || 'A critical server error occurred.'\<close>), then run \<open>finally\<close>.
\<close>

definition startBulkCreate ::
  "string \<Rightarrow> bulkRequest \<Rightarrow> profile list \<Rightarrow> upstream \<Rightarrow> registry \<Rightarrow> schedule
     \<Rightarrow> (action list \<times> registry \<times> schedule) option" where
  "startBulkCreate socketId d profiles up activeJobs sch =
     (let jobId = createJobId socketId (selectedProfileName d)
      in case bulkTry jobId d profiles up (activeJobs(jobId \<mapsto> Running)) sch of
           None \<Rightarrow> None
         | Some (thrown, tr, r1, sch1) \<Rightarrow>
             (let caught =
                    (case thrown of
                       None \<Rightarrow> []
                     | Some msg \<Rightarrow>
                         [Emit (BulkError (if msg \<noteq> [] then msg
                                           else ''A critical server error occurred.'')
                                          (selectedProfileName d))])
              in case finish jobId (selectedProfileName d) r1 of
                   (fin, r2) \<Rightarrow> Some (tr @ caught @ fin, r2, sch1)))"

text \<open>
  The rest of a batch from the top of iteration \<open>i\<close>: the loop over the remaining
  recipients, then the \<open>finally\<close> block.
\<close>

definition restOfBatch ::
  "string \<Rightarrow> bulkRequest \<Rightarrow> profile \<Rightarrow> upstream \<Rightarrow> nat \<Rightarrow> ustring list \<Rightarrow> registry \<Rightarrow> schedule
     \<Rightarrow> (action list \<times> registry \<times> schedule) option" where
  "restOfBatch jobId d activeProfile up i es r sch =
     (case bulkLoop jobId d activeProfile up i es r sch of
        None \<Rightarrow> None
      | Some (tr, r1, sch1) \<Rightarrow>
          (case finish jobId (selectedProfileName d) r1 of
             (fin, r2) \<Rightarrow> Some (tr @ fin, r2, sch1)))"

section \<open>Delivery verification (\<open>verifyTicketEmail\<close>)\<close>

text \<open>
  The two history calls are awaited together with \<open>Promise.all\<close>: either both bodies
  arrive or one error is thrown. Of a history body only its \<open>data\<close> array matters, which
  may be missing; the same holds for the body of the failure-alert feed. The fixed wait
  of 10 s before the calls is not part of the model.
\<close>

type_synonym historyBody = "json list option"

record failureAlert =
  alertTicketNumber :: jsval
  alertReason :: string

record verifyUpstream =
  histories :: "jsError + (historyBody \<times> historyBody)"
  failureAlerts :: "jsError + failureAlert list option"

text \<open>
  \<open>fullResponse.verifyEmail\<close>: the history bodies, the matching alert or the text
  \<open>"No specific failure found for this ticket."\<close>, and the error message.
\<close>

datatype failureInfo = FailureFound failureAlert | NoSpecificFailure

record verifyInfo =
  viHistory :: "(historyBody \<times> historyBody) option"
  viFailure :: "failureInfo option"
  viError :: "string option"

record ticketUpdate =
  tuTicketNumber :: jsval
  tuSuccess :: bool
  tuDetails :: string
  tuTicketCreate :: ticket
  tuVerifyEmail :: verifyInfo
  tuProfileName :: string

definition orEmpty :: "'a list option \<Rightarrow> 'a list" where
  "orEmpty v = (case v of None \<Rightarrow> [] | Some xs \<Rightarrow> xs)"

text \<open>The result is the name of the emitted event and its payload.\<close>

definition verifyTicketEmail ::
  "ticket \<Rightarrow> profile \<Rightarrow> string \<Rightarrow> verifyUpstream \<Rightarrow> string \<times> ticketUpdate" where
  "verifyTicketEmail tk prof resultEventName vu =
     (let created = ''Ticket #'' @ jsString (ticketNumber tk) @ '' created. '';
          failed = \<lambda>error history.
            (resultEventName,
             \<lparr>tuTicketNumber = ticketNumber tk, tuSuccess = False,
              tuDetails = created @ ''Email verification: Failed to check status.'',
              tuTicketCreate = tk,
              tuVerifyEmail = \<lparr>viHistory = history, viFailure = None,
                                viError = Some (parsedMessage (parseError error))\<rparr>,
              tuProfileName = profileName prof\<rparr>)
      in case histories vu of
           Inl error \<Rightarrow> failed error None
         | Inr (workflowHistory, notificationHistory) \<Rightarrow>
             if orEmpty workflowHistory @ orEmpty notificationHistory \<noteq> [] then
               (resultEventName,
                \<lparr>tuTicketNumber = ticketNumber tk, tuSuccess = True,
                 tuDetails = created @ ''Email verification: Sent successfully.'',
                 tuTicketCreate = tk,
                 tuVerifyEmail = \<lparr>viHistory = Some (workflowHistory, notificationHistory),
                                   viFailure = None, viError = None\<rparr>,
                 tuProfileName = profileName prof\<rparr>)
             else
               (case failureAlerts vu of
                  Inl error \<Rightarrow> failed error (Some (workflowHistory, notificationHistory))
                | Inr alerts \<Rightarrow>
                    (let failure =
                           (case alerts of
                              None \<Rightarrow> None
                            | Some fs \<Rightarrow>
                                find (\<lambda>f. jsString (alertTicketNumber f)
                                             = jsString (ticketNumber tk)) fs)
                     in (resultEventName,
                         \<lparr>tuTicketNumber = ticketNumber tk, tuSuccess = False,
                          tuDetails = created @
                            (case failure of
                               None \<Rightarrow> ''Email verification: Not Found.''
                             | Some f \<Rightarrow> ''Email verification: Failed. Reason: ''
                                          @ alertReason f),
                          tuTicketCreate = tk,
                          tuVerifyEmail =
                            \<lparr>viHistory = Some (workflowHistory, notificationHistory),
                             viFailure = Some (case failure of
                                                 None \<Rightarrow> NoSpecificFailure
                                               | Some f \<Rightarrow> FailureFound f),
                             viError = None\<rparr>,
                          tuProfileName = profileName prof\<rparr>))))"

section \<open>The access-token cache (\<open>getValidAccessToken\<close>)\<close>

text \<open>
  The body of a token response, and a cache entry \<open>{ data, expiresAt }\<close>. Times are
  milliseconds as \<open>Date.now()\<close> gives them; \<open>expires_in\<close> is in seconds.
\<close>

record tokenData =
  access_token :: "string option"
  expires_in :: int
  tokenError :: "string option"

record cacheEntry =
  cachedData :: tokenData
  expiresAt :: int

text \<open>
  \<open>tokenCache\<close> is a plain object (\<open>const tokenCache = {}\<close>); the map holds its own
  properties. Reading \<open>tokenCache[name]\<close> finds an own property, or else a property
  inherited from \<open>Object.prototype\<close>, or else \<open>undefined\<close>. The inherited values are
  functions, and for \<open>__proto__\<close> the prototype object itself, which no assignment
  \<open>tokenCache[name] = ...\<close> can shadow; all of them are truthy and have no \<open>data\<close>
  property.
\<close>

type_synonym tokenCache = "string \<rightharpoonup> cacheEntry"

definition prototypeKeys :: "string list" where
  "prototypeKeys =
     [''constructor'', ''__defineGetter__'', ''__defineSetter__'', ''hasOwnProperty'',
      ''__lookupGetter__'', ''__lookupSetter__'', ''isPrototypeOf'',
      ''propertyIsEnumerable'', ''toString'', ''valueOf'', ''__proto__'',
      ''toLocaleString'']"

datatype cacheLookup = Own cacheEntry | Inherited | Undefined

definition lookupCache :: "tokenCache \<Rightarrow> string \<Rightarrow> cacheLookup" where
  "lookupCache tokenCache name =
     (if name = ''__proto__'' then Inherited
      else
        (case tokenCache name of
           Some entry \<Rightarrow> Own entry
         | None \<Rightarrow> if name \<in> set prototypeKeys then Inherited else Undefined))"

text \<open>
  What a call gives: the token data it returns, an error it throws from the \<open>try\<close>
  block, or the \<open>TypeError\<close> of reading \<open>access_token\<close> of \<open>undefined\<close>.
\<close>

datatype tokenOutcome = Token tokenData | Thrown jsError | ThrownTypeError

text \<open>
  \<open>post\<close> is the outcome of \<open>axios.post\<close> on the token endpoint. The result holds the
  outcome, the cache, and the number of requests sent to the token endpoint. An \<open>error\<close> property in the body is thrown as \<open>new Error(...)\<close>, whose
  stack is kept without its frames. \<open>refreshAccessToken\<close> is the \<open>try\<close> block; it is
  reached only for a name other than \<open>__proto__\<close>, where the assignment creates or
  replaces an own property.
\<close>

definition refreshAccessToken ::
  "int \<Rightarrow> (profile \<Rightarrow> jsError + tokenData) \<Rightarrow> profile \<Rightarrow> tokenCache
     \<Rightarrow> tokenOutcome \<times> tokenCache \<times> nat" where
  "refreshAccessToken now post prof tokenCache =
     (case post prof of
        Inl error \<Rightarrow> (Thrown error, tokenCache, 1)
      | Inr dat \<Rightarrow>
          (case tokenError dat of
             Some e \<Rightarrow>
               if e \<noteq> [] then
                 (Thrown \<lparr>errResponse = None, errRequest = False, errMessage = e,
                          errStack = ''Error: '' @ e\<rparr>, tokenCache, 1)
               else
                 (Token dat,
                  tokenCache(profileName prof \<mapsto>
                    \<lparr>cachedData = dat, expiresAt = now + (expires_in dat - 60) * 1000\<rparr>), 1)
           | None \<Rightarrow>
               (Token dat,
                tokenCache(profileName prof \<mapsto>
                  \<lparr>cachedData = dat, expiresAt = now + (expires_in dat - 60) * 1000\<rparr>), 1)))"

text \<open>
  The guard \<open>tokenCache[name] && tokenCache[name].data.access_token &&
  tokenCache[name].expiresAt > now\<close> stands before the \<open>try\<close>: on an inherited value
  its second operand throws, and the function rejects without any request.
\<close>

definition getValidAccessToken ::
  "int \<Rightarrow> (profile \<Rightarrow> jsError + tokenData) \<Rightarrow> profile \<Rightarrow> tokenCache
     \<Rightarrow> tokenOutcome \<times> tokenCache \<times> nat" where
  "getValidAccessToken now post prof tokenCache =
     (case lookupCache tokenCache (profileName prof) of
        Inherited \<Rightarrow> (ThrownTypeError, tokenCache, 0)
      | Own entry \<Rightarrow>
          if truthyStr (access_token (cachedData entry)) \<and> now < expiresAt entry then
            (Token (cachedData entry), tokenCache, 0)
          else refreshAccessToken now post prof tokenCache
      | Undefined \<Rightarrow> refreshAccessToken now post prof tokenCache)"

section \<open>Observations on traces and schedules\<close>

text \<open>Projections of a trace.\<close>

fun resultOf :: "action \<Rightarrow> ticketResult list" where
  "resultOf (Emit (TicketResult t)) = [t]"
| "resultOf a = []"

fun createCallOf :: "action \<Rightarrow> (nat \<times> ustring) list" where
  "createCallOf (CreateCall i e) = [(i, e)]"
| "createCallOf a = []"

fun sleepOf :: "action \<Rightarrow> nat list" where
  "sleepOf (Sleep i ms n) = [i]"
| "sleepOf a = []"

fun terminalOf :: "action \<Rightarrow> event list" where
  "terminalOf (Emit (BulkError m n)) = [BulkError m n]"
| "terminalOf (Emit (BulkEnded n)) = [BulkEnded n]"
| "terminalOf (Emit (BulkComplete n)) = [BulkComplete n]"
| "terminalOf a = []"

definition results :: "action list \<Rightarrow> ticketResult list" where
  "results tr = concat (map resultOf tr)"

definition createCalls :: "action list \<Rightarrow> (nat \<times> ustring) list" where
  "createCalls tr = concat (map createCallOf tr)"

definition sleepIndices :: "action list \<Rightarrow> nat list" where
  "sleepIndices tr = concat (map sleepOf tr)"

definition terminals :: "action list \<Rightarrow> event list" where
  "terminals tr = concat (map terminalOf tr)"

text \<open>
  Control messages that end or remove the job \<open>j\<close>, and schedules that hold none.
\<close>

fun kills :: "string \<Rightarrow> signal \<Rightarrow> bool" where
  "kills j (EndJob s p) = (createJobId s p = j)"
| "kills j (Disconnect s) = prefix s j"
| "kills j sg = False"

definition neverKilled :: "string \<Rightarrow> schedule \<Rightarrow> bool" where
  "neverKilled j sch = list_all (list_all (\<lambda>sg. \<not> kills j sg)) sch"

text \<open>Control messages that act on the entry of job \<open>j\<close>, and schedules that hold none.\<close>

fun touches :: "string \<Rightarrow> signal \<Rightarrow> bool" where
  "touches j (Disconnect s) = prefix s j"
| "touches j sg = (addressed sg = Some j)"

definition quietFor :: "string \<Rightarrow> schedule \<Rightarrow> bool" where
  "quietFor j sch = list_all (list_all (\<lambda>sg. \<not> touches j sg)) sch"

section \<open>Example inputs\<close>

definition exProfile :: profile where
  "exProfile = \<lparr>profileName = ''acme'', orgId = ''60001'', defaultDepartmentId = ''7'',
     clientId = ''cid'', clientSecret = ''sec'', refreshToken = ''rt'',
     fromEmailAddress = Some ''desk@acme.test''\<rparr>"

definition exRequest :: bulkRequest where
  "exRequest = \<lparr>emails = [utf16 ''a@x.com'', utf16 '' '', utf16 ''b@x.com''], subject = ''Hello'',
     description = ''<p>Hi</p>'', delay = 1, selectedProfileName = ''acme'',
     sendDirectReply = False, verifyEmail = False\<rparr>"

definition exTimeout :: jsError where
  "exTimeout = \<lparr>errResponse = None, errRequest = True, errMessage = ''timeout'',
     errStack = []\<rparr>"

definition exUpstream :: upstream where
  "exUpstream = \<lparr>createTicket = (\<lambda>i. Inr \<lparr>ticketId = JNum (500 + int i),
                                              ticketNumber = JNum (100 + int i)\<rparr>),
     sendReply = (\<lambda>i. Inl exTimeout)\<rparr>"

section \<open>Properties of the registry\<close>

lemma deliverAll_append: "deliverAll (xs @ ys) r = deliverAll ys (deliverAll xs r)"
  by (induction xs arbitrary: r) simp_all

lemma deliver_addressed_present:
  assumes "addressed sg = Some j" and "r j \<noteq> None"
  shows "deliver sg r j = target sg"
  using assms
  by (cases sg)
     (auto simp: pauseJob_def resumeJob_def endJob_def Let_def)

lemma deliverAll_addressed_present:
  assumes "\<forall>sg \<in> set sgs. addressed sg = Some j" and "r j \<noteq> None"
  shows "deliverAll sgs r j \<noteq> None"
  using assms
proof (induction sgs arbitrary: r)
  case Nil
  then show ?case by simp
next
  case (Cons sg sgs)
  have "deliver sg r j = target sg"
    using Cons.prems by (intro deliver_addressed_present) simp_all
  moreover have "target sg \<noteq> None"
    using Cons.prems by (cases sg) simp_all
  ultimately have "deliver sg r j \<noteq> None" by simp
  with Cons show ?case by simp
qed

lemma finish_ended: "r j = Some Ended \<Longrightarrow> finish j name r = ([Emit (BulkEnded name)], r(j := None))"
  by (simp add: finish_def)

lemma finish_live:
  "\<not> stopped r j \<Longrightarrow> finish j name r = ([Emit (BulkComplete name)], r(j := None))"
  by (auto simp: finish_def stopped_def split: option.splits)

lemma bulkLoop_stopped: "stopped r j \<Longrightarrow> bulkLoop j d p up i es r sch = Some ([], r, sch)"
  by (cases es) simp_all

text \<open>
  C9. Ending a job twice leaves the registry as the first \<open>end\<close> left it; a worker
  that comes to its next check after the two \<open>end\<close> messages closes the batch with one
  \<open>bulkEnded\<close> event and nothing else. \<open>pause\<close>, \<open>resume\<close> and \<open>end\<close> on an absent job
  identifier return the registry unchanged. The handlers are total functions that
  produce nothing but the registry: they raise no error and emit no event.
\<close>

theorem end_twice_and_absent_noop:
  "endJob s p (endJob s p r) = endJob s p r \<and>
   (r (createJobId s p) \<noteq> None \<longrightarrow>
      restOfBatch (createJobId s p) d prof up i es (endJob s p (endJob s p r)) sch
        = Some ([Emit (BulkEnded (selectedProfileName d))], r(createJobId s p := None), sch)) \<and>
   (r (createJobId s p) = None \<longrightarrow>
      pauseJob s p r = r \<and> resumeJob s p r = r \<and> endJob s p r = r)"
proof -
  let ?j = "createJobId s p"
  let ?e = "endJob s p r"
  have twice: "endJob s p ?e = ?e"
    by (auto simp: endJob_def Let_def)
  have absent: "pauseJob s p r = r \<and> resumeJob s p r = r \<and> endJob s p r = r"
    if "r ?j = None"
    using that by (simp add: endJob_def pauseJob_def resumeJob_def Let_def)
  have close: "restOfBatch ?j d prof up i es (endJob s p ?e) sch
        = Some ([Emit (BulkEnded (selectedProfileName d))], r(?j := None), sch)"
    if "r ?j \<noteq> None"
  proof -
    have e: "?e = r(?j \<mapsto> Ended)" using that by (simp add: endJob_def Let_def)
    then have "stopped ?e ?j" by (simp add: stopped_def)
    then have "bulkLoop ?j d prof up i es ?e sch = Some ([], ?e, sch)"
      by (rule bulkLoop_stopped)
    moreover have "finish ?j (selectedProfileName d) ?e
        = ([Emit (BulkEnded (selectedProfileName d))], r(?j := None))"
      using finish_ended [of ?e ?j "selectedProfileName d"] e by simp
    ultimately show ?thesis
      unfolding twice by (simp add: restOfBatch_def)
  qed
  show ?thesis using twice absent close by blast
qed

theorem end_twice_and_absent_noop_witness:
  "[''s1_acme'' \<mapsto> Running] (createJobId ''s1'' ''acme'') \<noteq> None \<and>
   map_option fst
     (restOfBatch (createJobId ''s1'' ''acme'') exRequest exProfile exUpstream 1 [utf16 ''b@x.com'']
        (endJob ''s1'' ''acme'' (endJob ''s1'' ''acme'' [''s1_acme'' \<mapsto> Running])) [])
     = Some [Emit (BulkEnded ''acme'')] \<and>
   Map.empty (createJobId ''s1'' ''acme'') = None \<and>
   pauseJob ''s1'' ''acme'' Map.empty = Map.empty \<and>
   resumeJob ''s1'' ''acme'' Map.empty = Map.empty \<and>
   endJob ''s1'' ''acme'' Map.empty = Map.empty"
proof -
  have present: "[''s1_acme'' \<mapsto> Running] (createJobId ''s1'' ''acme'') \<noteq> None"
    by (simp add: createJobId_def)
  have absent: "Map.empty (createJobId ''s1'' ''acme'') = None"
    by simp
  note closed = end_twice_and_absent_noop
          [of "''s1''" "''acme''" "[''s1_acme'' \<mapsto> Running]" exRequest exProfile exUpstream
              1 "[utf16 ''b@x.com'']" "[]", THEN conjunct2, THEN conjunct1, rule_format, OF present]
  note noop = end_twice_and_absent_noop
          [of "''s1''" "''acme''" Map.empty, THEN conjunct2, THEN conjunct2, rule_format,
           OF absent]
  show ?thesis
    unfolding closed using present noop by (simp add: exRequest_def)
qed

text \<open>
  C2, as stated, fails: \<open>pauseJob\<close> and \<open>resumeJob\<close> overwrite an \<open>ended\<close> status, because
  they test only that the entry exists.
\<close>

theorem ended_not_terminal_counterexample:
  "pauseJob ''s1'' ''acme'' (endJob ''s1'' ''acme'' [''s1_acme'' \<mapsto> Running]) ''s1_acme''
     = Some Paused \<and>
   resumeJob ''s1'' ''acme'' (endJob ''s1'' ''acme'' [''s1_acme'' \<mapsto> Running]) ''s1_acme''
     = Some Running"
  by (simp add: pauseJob_def resumeJob_def endJob_def createJobId_def)

text \<open>
  C2, amended. For a job that is present in the registry, after any sequence of pause,
  resume and end messages addressed to it, followed by one more such message, the
  stored status is the one that last message writes (resume: running, pause: paused,
  end: ended), whatever the status was before. So the last message alone decides the
  status, and \<open>ended\<close> is overwritten by a later pause or resume like any other status.
\<close>

theorem last_signal_decides_status:
  assumes "r j \<noteq> None"
    and "\<forall>sg \<in> set sgs. addressed sg = Some j"
    and "addressed sg = Some j"
  shows "deliverAll (sgs @ [sg]) r j = target sg"
proof -
  have "deliverAll sgs r j \<noteq> None"
    using assms(2,1) by (rule deliverAll_addressed_present)
  then show ?thesis
    using assms(3) by (simp add: deliverAll_append deliver_addressed_present)
qed

theorem last_signal_decides_status_witness:
  "deliverAll ([PauseJob ''s1'' ''acme'', EndJob ''s1'' ''acme''] @ [ResumeJob ''s1'' ''acme''])
     [''s1_acme'' \<mapsto> Running] ''s1_acme'' = Some Running"
  using last_signal_decides_status
    [of "[''s1_acme'' \<mapsto> Running]" "''s1_acme''"
        "[PauseJob ''s1'' ''acme'', EndJob ''s1'' ''acme'']" "ResumeJob ''s1'' ''acme''"]
  by (simp add: createJobId_def)

section \<open>Properties of the interruptible delay\<close>

lemma sleepLoop_char:
  "\<exists>n. 1 \<le> n \<and> sleepLoop ms j elapsed t r sch = (fst (elapse n r sch), snd (elapse n r sch), t + n)
       \<and> (stopped (fst (elapse n r sch)) j \<or> ms \<le> elapsed + 100 * int n)
       \<and> (\<forall>k. 1 \<le> k \<and> k < n \<longrightarrow>
             \<not> stopped (fst (elapse k r sch)) j \<and> elapsed + 100 * int k < ms)"
proof (induction ms j elapsed t r sch rule: sleepLoop.induct)
  case (1 ms j elapsed t r sch)
  obtain r' sch' where sus: "suspend r sch = (r', sch')"
    by (cases "suspend r sch")
  have el: "elapse (Suc k) r sch = elapse k r' sch'" for k
    by (simp add: sus)
  show ?case
  proof (cases "stopped r' j \<or> ms \<le> elapsed + 100")
    case True
    have "sleepLoop ms j elapsed t r sch = (r', sch', Suc t)"
      using True sus by auto
    moreover have "elapse 1 r sch = (r', sch')"
      using el [of 0] by simp
    ultimately show ?thesis
      using True by (intro exI [of _ 1]) auto
  next
    case False
    then have run: "sleepLoop ms j elapsed t r sch
        = sleepLoop ms j (elapsed + 100) (Suc t) r' sch'"
      using sus by auto
    from False sus "1.IH" [of r' sch']
    obtain n where n: "1 \<le> n"
      "sleepLoop ms j (elapsed + 100) (Suc t) r' sch'
         = (fst (elapse n r' sch'), snd (elapse n r' sch'), Suc t + n)"
      "stopped (fst (elapse n r' sch')) j \<or> ms \<le> elapsed + 100 + 100 * int n"
      "\<forall>k. 1 \<le> k \<and> k < n \<longrightarrow>
          \<not> stopped (fst (elapse k r' sch')) j \<and> elapsed + 100 + 100 * int k < ms"
      by auto
    have later: "\<not> stopped (fst (elapse k r sch)) j \<and> elapsed + 100 * int k < ms"
      if "1 \<le> k" "k < Suc n" for k
    proof (cases k)
      case 0
      with that show ?thesis by simp
    next
      case (Suc k')
      show ?thesis
      proof (cases "k' = 0")
        case True
        with Suc False sus show ?thesis by simp
      next
        case nz: False
        then have "1 \<le> k'" "k' < n" using that Suc by auto
        with n(4) have "\<not> stopped (fst (elapse k' r' sch')) j \<and> elapsed + 100 + 100 * int k' < ms"
          by blast
        then show ?thesis using Suc el [of k'] by simp
      qed
    qed
    show ?thesis
      using n(1,2,3) run el [of n] later
      by (intro exI [of _ "Suc n"]) (auto simp: algebra_simps)
  qed
qed

text \<open>
  C6. A delay with \<open>ms \<le> 0\<close> resolves at once: no timer callback runs, no suspension
  is taken and the registry is not consulted. A delay with \<open>ms > 0\<close> resolves at the
  first 100 ms callback \<open>n \<ge> 1\<close> at which the job is found ended or absent, or at which
  \<open>100 * n\<close> has reached \<open>ms\<close>; at every earlier callback the job was live and the
  duration had not elapsed.
\<close>

theorem interruptibleSleep_contract:
  "(ms \<le> 0 \<longrightarrow> interruptibleSleep ms j r sch = (r, sch, 0)) \<and>
   (0 < ms \<longrightarrow>
     (\<exists>n. 1 \<le> n \<and>
        interruptibleSleep ms j r sch = (fst (elapse n r sch), snd (elapse n r sch), n) \<and>
        (stopped (fst (elapse n r sch)) j \<or> ms \<le> 100 * int n) \<and>
        (\<forall>k. 1 \<le> k \<and> k < n \<longrightarrow>
            \<not> stopped (fst (elapse k r sch)) j \<and> 100 * int k < ms)))"
  using sleepLoop_char [of ms j 0 0 r sch]
  by (auto simp: interruptibleSleep_def)

theorem interruptibleSleep_contract_witness:
  "(0::int) < 250 \<and>
   snd (snd (interruptibleSleep 250 ''s1_acme'' [''s1_acme'' \<mapsto> Running] [])) = 3 \<and>
   snd (snd (interruptibleSleep 250 ''s1_acme'' [''s1_acme'' \<mapsto> Running]
               [[], [EndJob ''s1'' ''acme'']])) = 2 \<and>
   (-5::int) \<le> 0 \<and>
   snd (snd (interruptibleSleep (-5) ''s1_acme'' Map.empty [[EndJob ''s1'' ''acme'']])) = 0"
proof -
  have a: "snd (snd (interruptibleSleep 250 ''s1_acme'' [''s1_acme'' \<mapsto> Running] [])) = 3"
    "snd (snd (interruptibleSleep 250 ''s1_acme'' [''s1_acme'' \<mapsto> Running]
                 [[], [EndJob ''s1'' ''acme'']])) = 2"
    by code_simp+
  show ?thesis
    using interruptibleSleep_contract
            [of "-5" "''s1_acme''" Map.empty "[[EndJob ''s1'' ''acme'']]"]
          interruptibleSleep_contract
            [of 250 "''s1_acme''" "[''s1_acme'' \<mapsto> Running]" "[]"] a
    by simp
qed

section \<open>Properties of the batch worker\<close>

lemma after_Some [simp]: "after pre (Some (tr, st)) = Some (pre @ tr, st)"
  by (simp add: after_def)

lemma after_None [simp]: "after pre None = None"
  by (simp add: after_def)

lemma after_eq_Some:
  "after pre x = Some (tr, st) \<longleftrightarrow> (\<exists>tr'. x = Some (tr', st) \<and> tr = pre @ tr')"
  by (cases x) (auto simp: after_def)

lemma after_after: "after a (after b x) = after (a @ b) x"
  by (cases x) (auto simp: after_def)

lemma results_append [simp]: "results (a @ b) = results a @ results b"
  by (simp add: results_def)

lemma createCalls_append [simp]: "createCalls (a @ b) = createCalls a @ createCalls b"
  by (simp add: createCalls_def)

lemma sleepIndices_append [simp]: "sleepIndices (a @ b) = sleepIndices a @ sleepIndices b"
  by (simp add: sleepIndices_def)

lemma terminals_append [simp]: "terminals (a @ b) = terminals a @ terminals b"
  by (simp add: terminals_def)

lemma deliver_not_killed:
  assumes "\<not> kills j sg" and "\<not> stopped r j"
  shows "\<not> stopped (deliver sg r) j"
  using assms
  by (cases sg)
     (auto simp: stopped_def pauseJob_def resumeJob_def endJob_def disconnect_def Let_def)

lemma deliverAll_not_killed:
  assumes "list_all (\<lambda>sg. \<not> kills j sg) sgs" and "\<not> stopped r j"
  shows "\<not> stopped (deliverAll sgs r) j"
  using assms
  by (induction sgs arbitrary: r) (simp_all add: deliver_not_killed)

lemma suspend_not_killed:
  assumes "suspend r sch = (r', sch')" and "neverKilled j sch" and "\<not> stopped r j"
  shows "\<not> stopped r' j \<and> neverKilled j sch'"
  using assms
  by (cases sch) (auto simp: suspend_def neverKilled_def deliverAll_not_killed)

lemma elapse_not_killed:
  assumes "elapse n r sch = (r', sch')" and "neverKilled j sch" and "\<not> stopped r j"
  shows "\<not> stopped r' j \<and> neverKilled j sch'"
  using assms
proof (induction n arbitrary: r sch)
  case 0
  then show ?case by simp
next
  case (Suc n)
  obtain r1 sch1 where s: "suspend r sch = (r1, sch1)" by (cases "suspend r sch")
  with Suc.prems have "\<not> stopped r1 j \<and> neverKilled j sch1"
    by (intro suspend_not_killed [OF s]) simp_all
  moreover have "elapse n r1 sch1 = (r', sch')" using Suc.prems s by simp
  ultimately show ?case using Suc.IH by blast
qed

lemma interruptibleSleep_elapse:
  "\<exists>n. interruptibleSleep ms j r sch = (fst (elapse n r sch), snd (elapse n r sch), n)"
proof (cases "ms \<le> 0")
  case True
  then show ?thesis by (intro exI [of _ 0]) (simp add: interruptibleSleep_def)
next
  case False
  with sleepLoop_char [of ms j 0 0 r sch] show ?thesis
    by (auto simp: interruptibleSleep_def)
qed

lemma itemDelay_elapse:
  assumes "itemDelay j d i r sch = (slept, r2, sch2)"
  shows "\<exists>n. elapse n r sch = (r2, sch2)"
    and "sleepIndices slept = (if 0 < i \<and> 0 < delay d then [i] else [])"
    and "results slept = []" and "createCalls slept = []" and "terminals slept = []"
proof -
  obtain n where n: "interruptibleSleep (delay d * 1000) j r sch
      = (fst (elapse n r sch), snd (elapse n r sch), n)"
    using interruptibleSleep_elapse by blast
  show "\<exists>n. elapse n r sch = (r2, sch2)"
  proof (cases "0 < i \<and> 0 < delay d")
    case True
    with assms n have "elapse n r sch = (r2, sch2)"
      by (auto simp: itemDelay_def)
    then show ?thesis ..
  next
    case False
    with assms have "elapse 0 r sch = (r2, sch2)" by (auto simp: itemDelay_def)
    then show ?thesis ..
  qed
  show "sleepIndices slept = (if 0 < i \<and> 0 < delay d then [i] else [])"
    "results slept = []" "createCalls slept = []" "terminals slept = []"
    using assms
    by (auto simp: itemDelay_def sleepIndices_def results_def createCalls_def terminals_def
             split: if_splits prod.splits)
qed

lemma processEmail_elapse:
  assumes "processEmail d p up i email r sch = (acts, r3, sch3)"
  shows "\<exists>n. elapse n r sch = (r3, sch3)"
    and "map trEmail (results acts) = [email]"
    and "createCalls acts = [(i, email)]"
    and "sleepIndices acts = []" and "terminals acts = []"
proof -
  obtain r1 sch1 where s1: "suspend r sch = (r1, sch1)" by (cases "suspend r sch")
  obtain r2 sch2 where s2: "suspend r1 sch1 = (r2, sch2)" by (cases "suspend r1 sch1")
  have e1: "elapse 1 r sch = (r1, sch1)" using s1 by simp
  have e2: "elapse 2 r sch = (r2, sch2)" using s1 s2 by (simp add: numeral_2_eq_2)
  have "(r3, sch3) = (r1, sch1) \<or> (r3, sch3) = (r2, sch2)"
    using assms s1 s2
    by (auto simp: processEmail_def Let_def split: sum.splits if_splits)
  with e1 e2 show "\<exists>n. elapse n r sch = (r3, sch3)" by metis
  show "map trEmail (results acts) = [email]" "createCalls acts = [(i, email)]"
    "sleepIndices acts = []" "terminals acts = []"
    using assms
    by (auto simp: processEmail_def Let_def results_def createCalls_def sleepIndices_def
                   terminals_def
             split: sum.splits if_splits prod.splits)
qed

lemma pausePoll_not_killed:
  assumes "pausePoll j i r sch = Some (polls, r1, sch1)"
    and "neverKilled j sch" and "\<not> stopped r j"
  shows "\<not> stopped r1 j \<and> neverKilled j sch1 \<and> results polls = [] \<and> createCalls polls = []
         \<and> sleepIndices polls = [] \<and> terminals polls = []"
  using assms
proof (induction sch arbitrary: r polls)
  case Nil
  then show ?case
    by (auto simp: results_def createCalls_def sleepIndices_def terminals_def split: if_splits)
next
  case (Cons sgs rest)
  show ?case
  proof (cases "r j = Some Paused")
    case False
    with Cons.prems show ?thesis
      by (auto simp: results_def createCalls_def sleepIndices_def terminals_def)
  next
    case True
    with Cons.prems obtain tr where
      rec: "pausePoll j i (deliverAll sgs r) rest = Some (tr, r1, sch1)"
      and polls: "polls = PausePoll i # tr"
      by auto
    have "\<not> stopped (deliverAll sgs r) j" "neverKilled j rest"
      using Cons.prems by (auto simp: neverKilled_def deliverAll_not_killed)
    with Cons.IH [OF rec] polls show ?thesis
      by (auto simp: results_def createCalls_def sleepIndices_def terminals_def)
  qed
qed

lemma upt_first: "[i ..< Suc (i + n)] = i # [Suc i ..< Suc (i + n)]"
  by (rule upt_conv_Cons) simp

lemma sleep_slots:
  "(if 0 < i \<and> 0 < dl then [i] else []) @ (if 0 < dl then [max 1 (Suc i) ..< Suc (i + n)] else [])
     = (if (0::int) < dl then [max 1 i ..< Suc (i + n)] else [])"
proof (cases "0 < dl")
  case False
  then show ?thesis by simp
next
  case True
  show ?thesis
  proof (cases i)
    case 0
    with True show ?thesis by (simp del: upt_Suc)
  next
    case (Suc k)
    with True upt_first [of i n] show ?thesis by (simp del: upt_Suc)
  qed
qed

lemma bulkLoop_trace:
  assumes "bulkLoop j d p up i es r sch = Some (tr, r', sch')"
    and "\<not> stopped r j" and "neverKilled j sch"
  shows "map trEmail (results tr) = filter (\<lambda>e. trim e \<noteq> []) es
       \<and> createCalls tr = filter (\<lambda>(k, e). trim e \<noteq> []) (zip [i ..< i + length es] es)
       \<and> sleepIndices tr = (if 0 < delay d then [max 1 i ..< i + length es] else [])
       \<and> terminals tr = [] \<and> \<not> stopped r' j"
  using assms
proof (induction es arbitrary: i r sch tr)
  case Nil
  then show ?case
    by (auto simp: results_def createCalls_def sleepIndices_def terminals_def)
next
  case (Cons email rest)
  from Cons.prems obtain polls r1 sch1 where
    pp: "pausePoll j i r sch = Some (polls, r1, sch1)"
    by (auto split: option.splits)
  obtain slept r2 sch2 where dl: "itemDelay j d i r1 sch1 = (slept, r2, sch2)"
    by (cases "itemDelay j d i r1 sch1")
  have polls: "\<not> stopped r1 j" "neverKilled j sch1" "results polls = []"
    "createCalls polls = []" "sleepIndices polls = []" "terminals polls = []"
    using pausePoll_not_killed [OF pp Cons.prems(3,2)] by simp_all
  obtain n where "elapse n r1 sch1 = (r2, sch2)"
    using itemDelay_elapse(1) [OF dl] by blast
  then have live2: "\<not> stopped r2 j" "neverKilled j sch2"
    using elapse_not_killed polls(1,2) by blast+
  note slept = itemDelay_elapse(2-5) [OF dl]
  show ?case
  proof (cases "trim email = []")
    case True
    with Cons.prems(1,2) pp dl live2 obtain tr' where
      rec: "bulkLoop j d p up (Suc i) rest r2 sch2 = Some (tr', r', sch')"
      and tr: "tr = (polls @ slept) @ tr'"
      by (auto simp: after_eq_Some)
    from Cons.IH [OF rec live2] polls slept tr True sleep_slots [of i "delay d" "length rest"]
    show ?thesis by (simp del: upt_Suc add: upt_first)
  next
    case False
    obtain acts r3 sch3 where pe: "processEmail d p up i email r2 sch2 = (acts, r3, sch3)"
      by (cases "processEmail d p up i email r2 sch2")
    with False Cons.prems(1,2) pp dl live2 obtain tr' where
      rec: "bulkLoop j d p up (Suc i) rest r3 sch3 = Some (tr', r', sch')"
      and tr: "tr = (polls @ slept @ acts) @ tr'"
      by (auto simp: after_eq_Some)
    obtain m where "elapse m r2 sch2 = (r3, sch3)"
      using processEmail_elapse(1) [OF pe] by blast
    then have live3: "\<not> stopped r3 j" "neverKilled j sch3"
      using elapse_not_killed live2 by blast+
    note acts = processEmail_elapse(2-5) [OF pe]
    from Cons.IH [OF rec live3] polls slept acts tr False
      sleep_slots [of i "delay d" "length rest"]
    show ?thesis by (simp del: upt_Suc add: upt_first)
  qed
qed

lemma pausePoll_polls:
  assumes "pausePoll j i r sch = Some (polls, r1, sch1)"
  shows "results polls = [] \<and> createCalls polls = [] \<and> sleepIndices polls = []
         \<and> terminals polls = [] \<and> r1 j \<noteq> Some Paused"
  using assms
proof (induction sch arbitrary: r polls)
  case Nil
  then show ?case
    by (auto simp: results_def createCalls_def sleepIndices_def terminals_def split: if_splits)
next
  case (Cons sgs rest)
  show ?case
  proof (cases "r j = Some Paused")
    case False
    with Cons.prems show ?thesis
      by (auto simp: results_def createCalls_def sleepIndices_def terminals_def)
  next
    case True
    with Cons.prems obtain tr where
      rec: "pausePoll j i (deliverAll sgs r) rest = Some (tr, r1, sch1)"
      and polls: "polls = PausePoll i # tr"
      by auto
    with Cons.IH [OF rec] show ?thesis
      by (auto simp: results_def createCalls_def sleepIndices_def terminals_def)
  qed
qed

lemma startBulkCreate_restOfBatch:
  assumes "find (\<lambda>p. profileName p = selectedProfileName d) profiles = Some p"
    and "sendDirectReply d \<longrightarrow> truthyStr (fromEmailAddress p)"
  shows "startBulkCreate s d profiles up r sch =
           restOfBatch (createJobId s (selectedProfileName d)) d p up 0 (emails d)
             (r(createJobId s (selectedProfileName d) \<mapsto> Running)) sch"
  using assms
  by (auto simp: startBulkCreate_def bulkTry_def restOfBatch_def Let_def
           split: option.splits prod.splits)

text \<open>
  C4, as stated, fails: setting the status to \<open>ended\<close> does not bind the worker by
  itself, because a later message can overwrite or remove the entry before the worker's
  next check. With an end and then a resume handled while the first create call is in
  flight, the worker finds the job running, goes on to the create call for the third
  entry, and closes the batch with \<open>bulkComplete\<close>; with an end and then a disconnect,
  no terminal event is emitted at all.
\<close>

theorem end_overwritten_counterexample:
  "deliverAll [EndJob ''s1'' ''acme''] [''s1_acme'' \<mapsto> Running] ''s1_acme'' = Some Ended \<and>
   map_option (createCalls \<circ> fst)
     (startBulkCreate ''s1'' exRequest [exProfile] exUpstream Map.empty
        [[EndJob ''s1'' ''acme'', ResumeJob ''s1'' ''acme'']])
     = Some [(0, utf16 ''a@x.com''), (2, utf16 ''b@x.com'')] \<and>
   map_option (terminals \<circ> fst)
     (startBulkCreate ''s1'' exRequest [exProfile] exUpstream Map.empty
        [[EndJob ''s1'' ''acme'', ResumeJob ''s1'' ''acme'']])
     = Some [BulkComplete ''acme''] \<and>
   map_option (terminals \<circ> fst)
     (startBulkCreate ''s1'' exRequest [exProfile] exUpstream Map.empty
        [[EndJob ''s1'' ''acme'', Disconnect ''s1'']])
     = Some []"
  by code_simp

text \<open>
  C4, amended. Take the worker at the top of iteration \<open>i\<close> with a live job. If the
  job's status is \<open>ended\<close> at the check right after the pause loop and the delay, the
  loop stops there: no create call, no result, and the batch closes with the single
  terminal event \<open>bulkEnded\<close>. If the recipient is processed and the job's status is
  \<open>ended\<close> when its processing is over (an end message came while its create or reply
  call was in flight and nothing has overwritten it), then the recipient's create call
  is the last one, its one result is emitted, the remaining recipients are not touched,
  and the batch closes with the single terminal event \<open>bulkEnded\<close>; no \<open>bulkComplete\<close>
  is emitted. In both cases the entry is removed.
\<close>

theorem ended_stops_worker:
  assumes "\<not> stopped r j"
    and "pausePoll j i r sch = Some (polls, r1, sch1)"
    and "itemDelay j d i r1 sch1 = (slept, r2, sch2)"
    and "processEmail d p up i email r2 sch2 = (acts, r3, sch3)"
  shows "(r2 j = Some Ended \<longrightarrow>
            restOfBatch j d p up i (email # rest) r sch =
              Some (polls @ slept @ [Emit (BulkEnded (selectedProfileName d))],
                    r2(j := None), sch2)
            \<and> createCalls (polls @ slept) = [] \<and> results (polls @ slept) = []
            \<and> terminals (polls @ slept) = [])
       \<and> (\<not> stopped r2 j \<and> trim email \<noteq> [] \<and> r3 j = Some Ended \<longrightarrow>
            restOfBatch j d p up i (email # rest) r sch =
              Some (polls @ slept @ acts @ [Emit (BulkEnded (selectedProfileName d))],
                    r3(j := None), sch3)
            \<and> createCalls (polls @ slept @ acts) = [(i, email)]
            \<and> map trEmail (results (polls @ slept @ acts)) = [email]
            \<and> terminals (polls @ slept @ acts) = [])"
proof -
  note pp = pausePoll_polls [OF assms(2)]
  note dl = itemDelay_elapse(2-5) [OF assms(3)]
  note pe = processEmail_elapse(2-5) [OF assms(4)]
  have A: "restOfBatch j d p up i (email # rest) r sch =
              Some (polls @ slept @ [Emit (BulkEnded (selectedProfileName d))],
                    r2(j := None), sch2)" if "r2 j = Some Ended"
  proof -
    have "stopped r2 j" using that by (simp add: stopped_def)
    then have "bulkLoop j d p up i (email # rest) r sch = Some (polls @ slept, r2, sch2)"
      using assms(1-3) by simp
    then show ?thesis using that by (simp add: restOfBatch_def finish_ended)
  qed
  have B: "restOfBatch j d p up i (email # rest) r sch =
              Some (polls @ slept @ acts @ [Emit (BulkEnded (selectedProfileName d))],
                    r3(j := None), sch3)"
    if "\<not> stopped r2 j" "trim email \<noteq> []" "r3 j = Some Ended"
  proof -
    have "stopped r3 j" using that(3) by (simp add: stopped_def)
    then have "bulkLoop j d p up (Suc i) rest r3 sch3 = Some ([], r3, sch3)"
      by (rule bulkLoop_stopped)
    then have "bulkLoop j d p up i (email # rest) r sch = Some (polls @ slept @ acts, r3, sch3)"
      using that(1,2) assms by simp
    then show ?thesis using that(3) by (simp add: restOfBatch_def finish_ended)
  qed
  show ?thesis using A B pp dl pe by simp
qed

theorem ended_stops_worker_witness:
  "map_option fst
     (restOfBatch ''s1_acme'' exRequest exProfile exUpstream 0 (emails exRequest)
        [''s1_acme'' \<mapsto> Running] [[EndJob ''s1'' ''acme'']]) =
     Some (fst (processEmail exRequest exProfile exUpstream 0 (utf16 ''a@x.com'')
                  [''s1_acme'' \<mapsto> Running] [[EndJob ''s1'' ''acme'']])
           @ [Emit (BulkEnded ''acme'')]) \<and>
   map_option fst
     (restOfBatch ''s1_acme'' exRequest exProfile exUpstream 1 [utf16 ''b@x.com'']
        [''s1_acme'' \<mapsto> Running] [[EndJob ''s1'' ''acme'']]) =
     Some [Sleep 1 1000 1, Emit (BulkEnded ''acme'')]"
proof -
  let ?r = "[''s1_acme'' \<mapsto> Running] :: registry"
  let ?sch = "[[EndJob ''s1'' ''acme'']]"
  let ?e = "endJob ''s1'' ''acme'' ?r"
  have live: "\<not> stopped ?r ''s1_acme''" by (simp add: stopped_def)
  have pp0: "pausePoll ''s1_acme'' 0 ?r ?sch = Some ([], ?r, ?sch)" by simp
  have pp1: "pausePoll ''s1_acme'' 1 ?r ?sch = Some ([], ?r, ?sch)" by simp
  have dl0: "itemDelay ''s1_acme'' exRequest 0 ?r ?sch = ([], ?r, ?sch)"
    by (simp add: itemDelay_def)
  have ended: "?e ''s1_acme'' = Some Ended"
    by (simp add: endJob_def createJobId_def)
  have dl1: "itemDelay ''s1_acme'' exRequest 1 ?r ?sch = ([Sleep 1 1000 1], ?e, [])"
    using ended
    by (simp add: itemDelay_def exRequest_def interruptibleSleep_def suspend_def stopped_def)
  obtain acts r3 sch3 where
    pe: "processEmail exRequest exProfile exUpstream 0 (utf16 ''a@x.com'') ?r ?sch = (acts, r3, sch3)"
    by (cases "processEmail exRequest exProfile exUpstream 0 (utf16 ''a@x.com'') ?r ?sch")
  then have r3: "r3 = ?e"
    by (auto simp: processEmail_def exUpstream_def exRequest_def suspend_def Let_def)
  obtain acts' r3' sch3' where
    pe': "processEmail exRequest exProfile exUpstream 1 (utf16 ''b@x.com'') ?e [] = (acts', r3', sch3')"
    by (cases "processEmail exRequest exProfile exUpstream 1 (utf16 ''b@x.com'') ?e []")
  have nb: "trim (utf16 ''a@x.com'') \<noteq> []" by code_simp
  have em: "emails exRequest = utf16 ''a@x.com'' # [utf16 '' '', utf16 ''b@x.com'']"
    "selectedProfileName exRequest = ''acme''"
    by (simp_all add: exRequest_def)
  from ended_stops_worker [OF live pp0 dl0 pe, of "[utf16 '' '', utf16 ''b@x.com'']"] live nb ended r3
  have one: "restOfBatch ''s1_acme'' exRequest exProfile exUpstream 0 (emails exRequest) ?r ?sch
      = Some (acts @ [Emit (BulkEnded ''acme'')], r3(''s1_acme'' := None), sch3)"
    by (simp add: em)
  from ended_stops_worker [OF live pp1 dl1 pe', of "[]"] ended
  have two: "restOfBatch ''s1_acme'' exRequest exProfile exUpstream 1 [utf16 ''b@x.com''] ?r ?sch
      = Some ([Sleep 1 1000 1, Emit (BulkEnded ''acme'')], ?e(''s1_acme'' := None), [])"
    by (simp add: em)
  show ?thesis
    unfolding one two pe by simp
qed

lemma deliver_untouched: "\<not> touches j sg \<Longrightarrow> deliver sg r j = r j"
  by (cases sg)
     (auto simp: pauseJob_def resumeJob_def endJob_def disconnect_def Let_def)

lemma deliverAll_untouched:
  "list_all (\<lambda>sg. \<not> touches j sg) sgs \<Longrightarrow> deliverAll sgs r j = r j"
  by (induction sgs arbitrary: r) (simp_all add: deliver_untouched)

lemma pausePoll_quiet_None:
  assumes "r j = Some Paused" and "quietFor j sch"
  shows "pausePoll j i r sch = None"
  using assms
proof (induction sch arbitrary: r)
  case Nil
  then show ?case by simp
next
  case (Cons sgs rest)
  then have "deliverAll sgs r j = Some Paused" "quietFor j rest"
    by (simp_all add: quietFor_def deliverAll_untouched)
  with Cons show ?case by simp
qed

lemma pausePoll_quiet_prefix:
  assumes "r j = Some Paused" and "quietFor j pre"
    and "deliverAll sgs (deliverAll (concat pre) r) j = Some Running"
  shows "pausePoll j i r (pre @ sgs # later) =
           Some (replicate (Suc (length pre)) (PausePoll i),
                 deliverAll sgs (deliverAll (concat pre) r), later)"
  using assms
proof (induction pre arbitrary: r)
  case Nil
  then have "pausePoll j i (deliverAll sgs r) later = Some ([], deliverAll sgs r, later)"
    by (cases later) simp_all
  with Nil show ?case by simp
next
  case (Cons q pre)
  have q: "deliverAll q r j = Some Paused" and pre: "quietFor j pre"
    using Cons.prems by (simp_all add: quietFor_def deliverAll_untouched)
  have "deliverAll sgs (deliverAll (concat pre) (deliverAll q r)) j = Some Running"
    using Cons.prems(3) by (simp add: deliverAll_append)
  from Cons.IH [OF q pre this] Cons.prems(1) show ?case
    by (simp add: deliverAll_append)
qed

text \<open>
  C5, as stated, fails: the pause loop runs before the delay and nothing tests for a
  pause after it. At the top of iteration 1 with a running job and a delay of 1 s, a
  pause handled before the first timer callback leaves the job paused when the delay
  ends, and no resume follows; the create call for the recipient is issued all the same.
\<close>

theorem pause_during_delay_counterexample:
  "fst (interruptibleSleep 1000 ''s1_acme'' [''s1_acme'' \<mapsto> Running]
          [[PauseJob ''s1'' ''acme'']]) ''s1_acme'' = Some Paused \<and>
   map_option (createCalls \<circ> fst)
     (bulkLoop ''s1_acme'' exRequest exProfile exUpstream 1 [utf16 ''b@x.com'']
        [''s1_acme'' \<mapsto> Running] [[PauseJob ''s1'' ''acme'']]) = Some [(1, utf16 ''b@x.com'')] \<and>
   map_option (\<lambda>(tr, r, sch). r ''s1_acme'')
     (bulkLoop ''s1_acme'' exRequest exProfile exUpstream 1 [utf16 ''b@x.com'']
        [''s1_acme'' \<mapsto> Running] [[PauseJob ''s1'' ''acme'']]) = Some (Some Paused)"
  by code_simp

text \<open>
  C5, amended. A pause that is in effect at the pause check at the top of an iteration
  suspends the worker: while no message for the job arrives it only polls, and without
  any such message it never goes on. When a resume arrives, the loop continues exactly
  as the loop from the top of the same iteration with a running job does, so the whole
  inter-item delay and the same recipient follow.
\<close>

theorem pause_at_iteration_top:
  assumes "r j = Some Paused"
  shows "(quietFor j pre \<and> deliverAll sgs (deliverAll (concat pre) r) j = Some Running \<longrightarrow>
            bulkLoop j d p up i (email # rest) r (pre @ sgs # later) =
              after (replicate (Suc (length pre)) (PausePoll i))
                (bulkLoop j d p up i (email # rest)
                   (deliverAll sgs (deliverAll (concat pre) r)) later))
       \<and> (quietFor j sch \<longrightarrow> bulkLoop j d p up i (email # rest) r sch = None)"
proof -
  have A: "bulkLoop j d p up i (email # rest) r (pre @ sgs # later) =
              after (replicate (Suc (length pre)) (PausePoll i))
                (bulkLoop j d p up i (email # rest)
                   (deliverAll sgs (deliverAll (concat pre) r)) later)"
    if q: "quietFor j pre" and run: "deliverAll sgs (deliverAll (concat pre) r) j = Some Running"
  proof -
    let ?r = "deliverAll sgs (deliverAll (concat pre) r)"
    let ?polls = "replicate (Suc (length pre)) (PausePoll i)"
    have pp: "pausePoll j i r (pre @ sgs # later) = Some (?polls, ?r, later)"
      using assms q run by (rule pausePoll_quiet_prefix)
    have pp': "pausePoll j i ?r later = Some ([], ?r, later)"
      using run by (cases later) simp_all
    have ns: "\<not> stopped r j" "\<not> stopped ?r j"
      using assms run by (simp_all add: stopped_def)
    obtain slept r2 sch2 where dl: "itemDelay j d i ?r later = (slept, r2, sch2)"
      by (cases "itemDelay j d i ?r later")
    obtain acts r3 sch3 where pe: "processEmail d p up i email r2 sch2 = (acts, r3, sch3)"
      by (cases "processEmail d p up i email r2 sch2")
    show ?thesis
      using ns pp pp' dl pe
      by (simp add: after_after del: replicate.simps)
  qed
  have B: "bulkLoop j d p up i (email # rest) r sch = None" if "quietFor j sch"
    using assms that by (simp add: stopped_def pausePoll_quiet_None)
  show ?thesis using A B by blast
qed

theorem pause_at_iteration_top_witness:
  "bulkLoop ''s1_acme'' exRequest exProfile exUpstream 1 [utf16 ''b@x.com'']
     [''s1_acme'' \<mapsto> Paused] ([[]] @ [ResumeJob ''s1'' ''acme''] # []) =
   after (replicate 2 (PausePoll 1))
     (bulkLoop ''s1_acme'' exRequest exProfile exUpstream 1 [utf16 ''b@x.com'']
        (resumeJob ''s1'' ''acme'' [''s1_acme'' \<mapsto> Paused]) []) \<and>
   bulkLoop ''s1_acme'' exRequest exProfile exUpstream 1 [utf16 ''b@x.com'']
     [''s1_acme'' \<mapsto> Paused] [[], [PauseJob ''s2'' ''acme'']] = None"
proof -
  let ?r = "[''s1_acme'' \<mapsto> Paused] :: registry"
  have h1: "?r ''s1_acme'' = Some Paused" by simp
  have h2: "quietFor ''s1_acme'' [[]]" by (simp add: quietFor_def)
  have h3: "deliverAll [ResumeJob ''s1'' ''acme''] (deliverAll (concat [[]]) ?r) ''s1_acme''
              = Some Running"
    by (simp add: resumeJob_def createJobId_def)
  have h4: "quietFor ''s1_acme'' [[], [PauseJob ''s2'' ''acme'']]"
    by (simp add: quietFor_def createJobId_def)
  from pause_at_iteration_top
         [where r = ?r and j = "''s1_acme''" and pre = "[[]]"
            and sgs = "[ResumeJob ''s1'' ''acme'']" and d = exRequest and p = exProfile
            and up = exUpstream and i = 1 and email = "(utf16 ''b@x.com'')" and rest = "[]"
            and later = "[]" and sch = "[[], [PauseJob ''s2'' ''acme'']]", OF h1] h2 h3 h4
  show ?thesis by (simp add: numeral_2_eq_2)
qed

text \<open>
  C1 on the code. When the setup throws (no profile with the selected name, or
  \<open>sendDirectReply\<close> with a profile that has no \<open>fromEmailAddress\<close>), no recipient is
  processed and the entry is removed, but two terminal events are emitted: the \<open>catch\<close>
  block emits \<open>bulkError\<close>, and the \<open>finally\<close> block, which finds the entry registered
  before the \<open>try\<close> with status running, emits \<open>bulkComplete\<close> as well.
\<close>

theorem setup_failure_emits_error_and_complete:
  "(find (\<lambda>p. profileName p = selectedProfileName d) profiles = None \<longrightarrow>
      startBulkCreate s d profiles up r sch =
        Some ([Emit (BulkError ''Profile not found.'' (selectedProfileName d)),
               Emit (BulkComplete (selectedProfileName d))],
              r(createJobId s (selectedProfileName d) := None), sch))
   \<and> (\<forall>p. find (\<lambda>p. profileName p = selectedProfileName d) profiles = Some p
           \<and> sendDirectReply d \<and> \<not> truthyStr (fromEmailAddress p) \<longrightarrow>
        (\<exists>msg. startBulkCreate s d profiles up r sch =
           Some ([Emit (BulkError msg (selectedProfileName d)),
                  Emit (BulkComplete (selectedProfileName d))],
                 r(createJobId s (selectedProfileName d) := None), sch)))"
  by (simp add: startBulkCreate_def bulkTry_def finish_def Let_def)

theorem setup_failure_emits_error_and_complete_witness:
  "find (\<lambda>p. profileName p = selectedProfileName (exRequest\<lparr>selectedProfileName := ''other''\<rparr>))
     [exProfile] = None \<and>
   map_option fst
     (startBulkCreate ''s1'' (exRequest\<lparr>selectedProfileName := ''other''\<rparr>) [exProfile]
        exUpstream Map.empty []) =
     Some [Emit (BulkError ''Profile not found.'' ''other''), Emit (BulkComplete ''other'')] \<and>
   find (\<lambda>p. profileName p = selectedProfileName (exRequest\<lparr>sendDirectReply := True\<rparr>))
     [exProfile\<lparr>fromEmailAddress := None\<rparr>] = Some (exProfile\<lparr>fromEmailAddress := None\<rparr>) \<and>
   sendDirectReply (exRequest\<lparr>sendDirectReply := True\<rparr>) \<and>
   \<not> truthyStr (fromEmailAddress (exProfile\<lparr>fromEmailAddress := None\<rparr>)) \<and>
   map_option (terminals \<circ> fst)
     (startBulkCreate ''s1'' (exRequest\<lparr>sendDirectReply := True\<rparr>)
        [exProfile\<lparr>fromEmailAddress := None\<rparr>] exUpstream Map.empty []) =
     Some [BulkError (''Profile '' @ [CHR 0x22] @ ''acme'' @ [CHR 0x22] @ '' is missing ''
                      @ [CHR 0x22] @ ''fromEmailAddress'' @ [CHR 0x22] @ ''.'') ''acme'',
           BulkComplete ''acme'']"
  using setup_failure_emits_error_and_complete
          [of "exRequest\<lparr>selectedProfileName := ''other''\<rparr>" "[exProfile]" "''s1''"
              exUpstream Map.empty "[]"]
        setup_failure_emits_error_and_complete
          [of "exRequest\<lparr>sendDirectReply := True\<rparr>" "[exProfile\<lparr>fromEmailAddress := None\<rparr>]"
              "''s1''" exUpstream Map.empty "[]"]
  by (simp add: exRequest_def exProfile_def truthyStr_def terminals_def startBulkCreate_def
                bulkTry_def finish_def Let_def)

text \<open>
  C3, as stated, fails in its last part: the delay of iteration \<open>i\<close> runs before the
  blank test, so a blank entry at an index above 0 still gets its delay. With the
  recipients \<open>a@x.com\<close>, a blank and \<open>b@x.com\<close> and a delay of 1 s, a delay runs at
  index 1, the blank entry.
\<close>

theorem blank_entry_delay_counterexample:
  "trim (emails exRequest ! 1) = [] \<and>
   map_option (sleepIndices \<circ> fst)
     (startBulkCreate ''s1'' exRequest [exProfile] exUpstream Map.empty []) = Some [1, 2]"
  by code_simp

lemma suspend_final:
  assumes "suspend r sch = (r', sch')"
  shows "deliverAll (concat sch') r' = deliverAll (concat sch) r"
  using assms by (cases sch) (auto simp: suspend_def deliverAll_append)

lemma elapse_final:
  assumes "elapse n r sch = (r', sch')"
  shows "deliverAll (concat sch') r' = deliverAll (concat sch) r"
  using assms
proof (induction n arbitrary: r sch)
  case 0
  then show ?case by simp
next
  case (Suc n)
  obtain r1 sch1 where s: "suspend r sch = (r1, sch1)" by (cases "suspend r sch")
  with Suc.prems have "elapse n r1 sch1 = (r', sch')" by simp
  from Suc.IH [OF this] suspend_final [OF s] show ?case by simp
qed

lemma pausePoll_returns:
  assumes "deliverAll (concat sch) r j \<noteq> Some Paused"
  shows "\<exists>polls r1 sch1. pausePoll j i r sch = Some (polls, r1, sch1)
           \<and> deliverAll (concat sch1) r1 = deliverAll (concat sch) r"
  using assms
proof (induction sch arbitrary: r)
  case Nil
  then show ?case by simp
next
  case (Cons sgs rest)
  show ?case
  proof (cases "r j = Some Paused")
    case False
    then show ?thesis by simp
  next
    case True
    from Cons.prems have "deliverAll (concat rest) (deliverAll sgs r) j \<noteq> Some Paused"
      by (simp add: deliverAll_append)
    from Cons.IH [OF this] obtain polls r1 sch1 where
      "pausePoll j i (deliverAll sgs r) rest = Some (polls, r1, sch1)"
      "deliverAll (concat sch1) r1 = deliverAll (concat rest) (deliverAll sgs r)"
      by blast
    with True show ?thesis by (simp add: deliverAll_append)
  qed
qed

text \<open>
  The loop returns whenever the messages of the schedule, taken together, do not leave
  the job paused: a pause loop then ends at the latest when the last message is handled.
\<close>

lemma bulkLoop_returns:
  assumes "deliverAll (concat sch) r j \<noteq> Some Paused"
  shows "bulkLoop j d p up i es r sch \<noteq> None"
  using assms
proof (induction es arbitrary: i r sch)
  case Nil
  then show ?case by simp
next
  case (Cons email rest)
  obtain polls r1 sch1 where
    pp: "pausePoll j i r sch = Some (polls, r1, sch1)"
    and f1: "deliverAll (concat sch1) r1 = deliverAll (concat sch) r"
    using pausePoll_returns [OF Cons.prems] by blast
  obtain slept r2 sch2 where dl: "itemDelay j d i r1 sch1 = (slept, r2, sch2)"
    by (cases "itemDelay j d i r1 sch1")
  obtain n where "elapse n r1 sch1 = (r2, sch2)"
    using itemDelay_elapse(1) [OF dl] by blast
  then have f2: "deliverAll (concat sch2) r2 = deliverAll (concat sch) r"
    using elapse_final f1 by simp
  obtain acts r3 sch3 where pe: "processEmail d p up i email r2 sch2 = (acts, r3, sch3)"
    by (cases "processEmail d p up i email r2 sch2")
  obtain m where "elapse m r2 sch2 = (r3, sch3)"
    using processEmail_elapse(1) [OF pe] by blast
  then have f3: "deliverAll (concat sch3) r3 = deliverAll (concat sch) r"
    using elapse_final f2 by simp
  have a: "bulkLoop j d p up (Suc i) rest r2 sch2 \<noteq> None"
    using Cons.IH [of sch2 r2] Cons.prems f2 by simp
  have b: "bulkLoop j d p up (Suc i) rest r3 sch3 \<noteq> None"
    using Cons.IH [of sch3 r3] Cons.prems f3 by simp
  show ?case
    using pp dl pe a b by (auto simp: after_def)
qed

text \<open>
  C3, amended. Take a batch whose setup succeeds and whose schedule holds no end
  message for the job and no disconnect of its connection. The batch returns whenever
  the messages of the schedule do not leave the job paused. Whenever it returns, the
  result events are, in input order, one for each entry that is not blank after
  trimming, each from one create call at that entry's index; a blank entry gets no call
  and no event. When the delay is positive, one inter-item delay runs at every index
  from 1 on, blank entries included. The batch closes with the single terminal event
  \<open>bulkComplete\<close>.
\<close>

theorem batch_results_and_delays:
  assumes "find (\<lambda>p. profileName p = selectedProfileName d) profiles = Some p"
    and "sendDirectReply d \<longrightarrow> truthyStr (fromEmailAddress p)"
    and "neverKilled (createJobId s (selectedProfileName d)) sch"
  shows "(deliverAll (concat sch) (r(createJobId s (selectedProfileName d) \<mapsto> Running))
            (createJobId s (selectedProfileName d)) \<noteq> Some Paused \<longrightarrow>
          startBulkCreate s d profiles up r sch \<noteq> None)
       \<and> (\<forall>tr r' sch'. startBulkCreate s d profiles up r sch = Some (tr, r', sch') \<longrightarrow>
            map trEmail (results tr) = filter (\<lambda>e. trim e \<noteq> []) (emails d)
          \<and> createCalls tr
              = filter (\<lambda>(k, e). trim e \<noteq> []) (zip [0 ..< length (emails d)] (emails d))
          \<and> sleepIndices tr = (if 0 < delay d then [1 ..< length (emails d)] else [])
          \<and> terminals tr = [BulkComplete (selectedProfileName d)])"
proof -
  let ?j = "createJobId s (selectedProfileName d)"
  let ?r = "r(?j \<mapsto> Running)"
  have rest: "startBulkCreate s d profiles up r sch
      = restOfBatch ?j d p up 0 (emails d) ?r sch"
    using startBulkCreate_restOfBatch [OF assms(1,2)] .
  have returns: "startBulkCreate s d profiles up r sch \<noteq> None"
    if "deliverAll (concat sch) ?r ?j \<noteq> Some Paused"
    using bulkLoop_returns [OF that, of d p up 0 "emails d"]
    by (auto simp: rest restOfBatch_def split: prod.splits)
  have props: "map trEmail (results tr) = filter (\<lambda>e. trim e \<noteq> []) (emails d)
          \<and> createCalls tr
              = filter (\<lambda>(k, e). trim e \<noteq> []) (zip [0 ..< length (emails d)] (emails d))
          \<and> sleepIndices tr = (if 0 < delay d then [1 ..< length (emails d)] else [])
          \<and> terminals tr = [BulkComplete (selectedProfileName d)]"
    if run: "startBulkCreate s d profiles up r sch = Some (tr, r', sch')" for tr r' sch'
  proof -
    have "restOfBatch ?j d p up 0 (emails d) ?r sch = Some (tr, r', sch')"
      using rest run by simp
    then obtain tr0 r1 fin where
      loop: "bulkLoop ?j d p up 0 (emails d) ?r sch = Some (tr0, r1, sch')"
      and fin: "finish ?j (selectedProfileName d) r1 = (fin, r')" and tr: "tr = tr0 @ fin"
      by (auto simp: restOfBatch_def split: option.splits prod.splits)
    have live: "\<not> stopped ?r ?j" by (simp add: stopped_def)
    note t = bulkLoop_trace [OF loop live assms(3)]
    then have "fin = [Emit (BulkComplete (selectedProfileName d))]"
      using fin finish_live [of r1 ?j "selectedProfileName d"] by simp
    then have "results fin = []" "createCalls fin = []" "sleepIndices fin = []"
      "terminals fin = [BulkComplete (selectedProfileName d)]"
      by (simp_all add: results_def createCalls_def sleepIndices_def terminals_def)
    with t tr show ?thesis by simp
  qed
  show ?thesis using returns props by blast
qed

theorem batch_results_and_delays_witness:
  "\<exists>tr r' sch'.
     startBulkCreate ''s1'' exRequest [exProfile] exUpstream Map.empty
       [[PauseJob ''s1'' ''acme''], [ResumeJob ''s1'' ''acme'']] = Some (tr, r', sch') \<and>
     map trEmail (results tr) = [utf16 ''a@x.com'', utf16 ''b@x.com''] \<and>
     createCalls tr = [(0, utf16 ''a@x.com''), (2, utf16 ''b@x.com'')] \<and>
     sleepIndices tr = [1, 2] \<and>
     terminals tr = [BulkComplete ''acme'']"
proof -
  let ?sch = "[[PauseJob ''s1'' ''acme''], [ResumeJob ''s1'' ''acme'']]"
  let ?run = "startBulkCreate ''s1'' exRequest [exProfile] exUpstream Map.empty ?sch"
  have h1: "find (\<lambda>p. profileName p = selectedProfileName exRequest) [exProfile] = Some exProfile"
    by (simp add: exRequest_def exProfile_def)
  have h2: "sendDirectReply exRequest \<longrightarrow> truthyStr (fromEmailAddress exProfile)"
    by (simp add: exRequest_def)
  have h3: "neverKilled (createJobId ''s1'' (selectedProfileName exRequest)) ?sch"
    by (simp add: neverKilled_def)
  have h4: "deliverAll (concat ?sch)
              (Map.empty(createJobId ''s1'' (selectedProfileName exRequest) \<mapsto> Running))
              (createJobId ''s1'' (selectedProfileName exRequest)) \<noteq> Some Paused"
    by (simp add: exRequest_def createJobId_def pauseJob_def resumeJob_def)
  note inst = batch_results_and_delays [OF h1 h2 h3, of Map.empty exUpstream]
  from inst h4 have "?run \<noteq> None" by blast
  then obtain tr r' sch' where run: "?run = Some (tr, r', sch')"
    by auto
  have ev: "filter (\<lambda>e. trim e \<noteq> []) (emails exRequest) = [utf16 ''a@x.com'', utf16 ''b@x.com'']"
    "filter (\<lambda>(k, e). trim e \<noteq> []) (zip [0 ..< length (emails exRequest)] (emails exRequest))
       = [(0, utf16 ''a@x.com''), (2, utf16 ''b@x.com'')]"
    "(if 0 < delay exRequest then [1 ..< length (emails exRequest)] else []) = [1, 2]"
    "selectedProfileName exRequest = ''acme''"
    by code_simp+
  from inst run have
    "map trEmail (results tr) = filter (\<lambda>e. trim e \<noteq> []) (emails exRequest)
      \<and> createCalls tr = filter (\<lambda>(k, e). trim e \<noteq> [])
           (zip [0 ..< length (emails exRequest)] (emails exRequest))
      \<and> sleepIndices tr = (if 0 < delay exRequest then [1 ..< length (emails exRequest)] else [])
      \<and> terminals tr = [BulkComplete (selectedProfileName exRequest)]"
    by blast
  then have "?run = Some (tr, r', sch') \<and>
        map trEmail (results tr) = [utf16 ''a@x.com'', utf16 ''b@x.com''] \<and>
        createCalls tr = [(0, utf16 ''a@x.com''), (2, utf16 ''b@x.com'')] \<and>
        sleepIndices tr = [1, 2] \<and>
        terminals tr = [BulkComplete ''acme'']"
    using run unfolding ev by simp
  then show ?thesis
    by (rule_tac x = tr in exI, rule_tac x = r' in exI, rule_tac x = sch' in exI)
qed

text \<open>
  C7. When the create call of a recipient succeeds and its reply call fails, with
  \<open>sendDirectReply\<close> set, the recipient's actions are the create call, the log write,
  the reply call and one result event with \<open>success = false\<close>, the created ticket's
  number, and a payload that holds the ticket together with the parsed reply error; no
  further upstream call is made for the ticket, and the loop goes on with the next
  index.
\<close>

theorem reply_failure_degrades_result:
  assumes "sendDirectReply d"
    and "createTicket up i = Inr t"
    and "sendReply up i = Inl e"
    and "\<not> stopped r j"
    and "pausePoll j i r sch = Some (polls, r1, sch1)"
    and "itemDelay j d i r1 sch1 = (slept, r2, sch2)"
    and "\<not> stopped r2 j"
    and "trim email \<noteq> []"
  shows "\<exists>r3 sch3.
     processEmail d p up i email r2 sch2 =
       ([CreateCall i email, LogWrite (ticketNumber t) email, ReplyCall i (ticketId t) email,
         Emit (TicketResult \<lparr>trEmail = email, trSuccess = False,
                 trTicketNumber = Some (ticketNumber t),
                 trDetails = Some (''Ticket #'' @ jsString (ticketNumber t)
                                   @ '' created, but reply failed: ''
                                   @ parsedMessage (parseError e)),
                 trError = None,
                 trFullResponse = Created t (Some (ReplyError (parseError e))),
                 trProfileName = selectedProfileName d\<rparr>)]
        @ (if verifyEmail d then [Verify t] else []), r3, sch3) \<and>
     bulkLoop j d p up i (email # rest) r sch =
       after (polls @ slept @ fst (processEmail d p up i email r2 sch2))
         (bulkLoop j d p up (Suc i) rest r3 sch3)"
proof -
  obtain acts r3 sch3 where pe: "processEmail d p up i email r2 sch2 = (acts, r3, sch3)"
    by (cases "processEmail d p up i email r2 sch2")
  have "acts = [CreateCall i email, LogWrite (ticketNumber t) email, ReplyCall i (ticketId t) email,
         Emit (TicketResult \<lparr>trEmail = email, trSuccess = False,
                 trTicketNumber = Some (ticketNumber t),
                 trDetails = Some (''Ticket #'' @ jsString (ticketNumber t)
                                   @ '' created, but reply failed: ''
                                   @ parsedMessage (parseError e)),
                 trError = None,
                 trFullResponse = Created t (Some (ReplyError (parseError e))),
                 trProfileName = selectedProfileName d\<rparr>)]
        @ (if verifyEmail d then [Verify t] else [])"
    using pe assms(1-3)
    by (auto simp: processEmail_def Let_def split: prod.splits)
  moreover have "bulkLoop j d p up i (email # rest) r sch =
       after (polls @ slept @ acts) (bulkLoop j d p up (Suc i) rest r3 sch3)"
    using assms(4-8) pe by simp
  ultimately show ?thesis using pe by auto
qed

theorem reply_failure_degrades_result_witness:
  "map_option fst
     (bulkLoop ''s1_acme'' (exRequest\<lparr>sendDirectReply := True\<rparr>) exProfile exUpstream 0
        [utf16 ''a@x.com''] [''s1_acme'' \<mapsto> Running] []) =
   Some [CreateCall 0 (utf16 ''a@x.com''), LogWrite (JNum 100) (utf16 ''a@x.com''),
         ReplyCall 0 (JNum 500) (utf16 ''a@x.com''),
         Emit (TicketResult \<lparr>trEmail = utf16 ''a@x.com'', trSuccess = False,
                 trTicketNumber = Some (JNum 100),
                 trDetails = Some (''Ticket #100 created, but reply failed: ''
                     @ ''Network Error: No response received from Zoho API.''),
                 trError = None,
                 trFullResponse =
                   Created \<lparr>ticketId = JNum 500, ticketNumber = JNum 100\<rparr>
                     (Some (ReplyError
                        \<lparr>parsedMessage = ''Network Error: No response received from Zoho API.'',
                         parsedFull = RawText ''timeout''\<rparr>)),
                 trProfileName = ''acme''\<rparr>)]"
  (is "?run = Some ?shown")
proof -
  let ?d = "exRequest\<lparr>sendDirectReply := True\<rparr>"
  let ?r = "[''s1_acme'' \<mapsto> Running] :: registry"
  let ?t = "\<lparr>ticketId = JNum 500, ticketNumber = JNum 100\<rparr>"
  let ?acts = "[CreateCall 0 (utf16 ''a@x.com''), LogWrite (ticketNumber ?t) (utf16 ''a@x.com''),
         ReplyCall 0 (ticketId ?t) (utf16 ''a@x.com''),
         Emit (TicketResult \<lparr>trEmail = utf16 ''a@x.com'', trSuccess = False,
                 trTicketNumber = Some (ticketNumber ?t),
                 trDetails = Some (''Ticket #'' @ jsString (ticketNumber ?t)
                                   @ '' created, but reply failed: ''
                                   @ parsedMessage (parseError exTimeout)),
                 trError = None,
                 trFullResponse = Created ?t (Some (ReplyError (parseError exTimeout))),
                 trProfileName = selectedProfileName ?d\<rparr>)]
        @ (if verifyEmail ?d then [Verify ?t] else [])"
  have h1: "sendDirectReply ?d" by simp
  have h2: "createTicket exUpstream 0 = Inr ?t" by (simp add: exUpstream_def)
  have h3: "sendReply exUpstream 0 = Inl exTimeout" by (simp add: exUpstream_def)
  have h4: "\<not> stopped ?r ''s1_acme''" by (simp add: stopped_def)
  have h5: "pausePoll ''s1_acme'' 0 ?r [] = Some ([], ?r, [])" by simp
  have h6: "itemDelay ''s1_acme'' ?d 0 ?r [] = ([], ?r, [])" by (simp add: itemDelay_def)
  have h8: "trim (utf16 ''a@x.com'') \<noteq> []" by code_simp
  have sh: "showInt 100 = ''100''" by code_simp
  have pm: "parseError exTimeout =
      \<lparr>parsedMessage = ''Network Error: No response received from Zoho API.'',
       parsedFull = RawText ''timeout''\<rparr>"
    by (simp add: parseError_def exTimeout_def)
  have shown: "?acts = ?shown"
    by (simp add: sh pm exRequest_def)
  from reply_failure_degrades_result
         [OF h1 h2 h3 h4 h5 h6 h4 h8, of exProfile "[]"]
  obtain r3 sch3 where
    pe: "processEmail ?d exProfile exUpstream 0 (utf16 ''a@x.com'') ?r [] = (?acts, r3, sch3)"
    and lp: "bulkLoop ''s1_acme'' ?d exProfile exUpstream 0 [utf16 ''a@x.com''] ?r [] =
       after ([] @ [] @ fst (processEmail ?d exProfile exUpstream 0 (utf16 ''a@x.com'') ?r []))
         (bulkLoop ''s1_acme'' ?d exProfile exUpstream (Suc 0) [] r3 sch3)"
    by blast
  have "?run = Some ?acts"
    unfolding lp pe by simp
  then show ?thesis
    unfolding shown .
qed

section \<open>Properties of the delivery verification\<close>

text \<open>
  C8. When both history feeds arrive with no events and the failure-alert feed holds an
  entry whose ticket number, as a string, equals the created ticket's, the update event
  is emitted under the given event name for that ticket number with \<open>success = false\<close>,
  and its detail text ends with the reason of such an entry (the first one in the feed),
  so it contains the reason.
\<close>

theorem verification_reports_matching_alert:
  assumes "histories vu = Inr (wh, nh)"
    and "orEmpty wh = []" and "orEmpty nh = []"
    and "failureAlerts vu = Inr (Some alerts)"
    and "\<exists>f \<in> set alerts. jsString (alertTicketNumber f) = jsString (ticketNumber tk)"
  shows "\<exists>f \<in> set alerts.
           jsString (alertTicketNumber f) = jsString (ticketNumber tk) \<and>
           fst (verifyTicketEmail tk prof name vu) = name \<and>
           tuTicketNumber (snd (verifyTicketEmail tk prof name vu)) = ticketNumber tk \<and>
           \<not> tuSuccess (snd (verifyTicketEmail tk prof name vu)) \<and>
           tuDetails (snd (verifyTicketEmail tk prof name vu)) =
             ''Ticket #'' @ jsString (ticketNumber tk)
               @ '' created. Email verification: Failed. Reason: '' @ alertReason f \<and>
           sublist (alertReason f) (tuDetails (snd (verifyTicketEmail tk prof name vu)))"
proof -
  let ?P = "\<lambda>f. jsString (alertTicketNumber f) = jsString (ticketNumber tk)"
  from assms(5) obtain f where f: "find ?P alerts = Some f"
    by (cases "find ?P alerts") (auto simp: find_None_iff)
  then have mem: "f \<in> set alerts" and match: "?P f"
    by (auto simp: find_Some_iff)
  have det: "tuDetails (snd (verifyTicketEmail tk prof name vu)) =
      (''Ticket #'' @ jsString (ticketNumber tk)
         @ '' created. Email verification: Failed. Reason: '') @ alertReason f @ []"
    using assms(1-4) f by (simp add: verifyTicketEmail_def Let_def)
  have "sublist (alertReason f) (tuDetails (snd (verifyTicketEmail tk prof name vu)))"
    unfolding det by (rule sublist_appendI)
  moreover have "fst (verifyTicketEmail tk prof name vu) = name"
    "tuTicketNumber (snd (verifyTicketEmail tk prof name vu)) = ticketNumber tk"
    "\<not> tuSuccess (snd (verifyTicketEmail tk prof name vu))"
    using assms(1-4) f by (simp_all add: verifyTicketEmail_def Let_def)
  ultimately show ?thesis using mem match det by auto
qed

theorem verification_reports_matching_alert_witness:
  "tuDetails (snd (verifyTicketEmail \<lparr>ticketId = JStr ''900'', ticketNumber = JStr ''101''\<rparr>
       exProfile ''ticketUpdate''
       \<lparr>histories = Inr (Some [], None),
        failureAlerts = Inr (Some [\<lparr>alertTicketNumber = JNum 7, alertReason = ''other''\<rparr>,
                                    \<lparr>alertTicketNumber = JNum 101,
                                     alertReason = ''Mailbox full''\<rparr>])\<rparr>))
     = ''Ticket #101 created. Email verification: Failed. Reason: Mailbox full'' \<and>
   \<not> tuSuccess (snd (verifyTicketEmail \<lparr>ticketId = JStr ''900'', ticketNumber = JStr ''101''\<rparr>
       exProfile ''ticketUpdate''
       \<lparr>histories = Inr (Some [], None),
        failureAlerts = Inr (Some [\<lparr>alertTicketNumber = JNum 7, alertReason = ''other''\<rparr>,
                                    \<lparr>alertTicketNumber = JNum 101,
                                     alertReason = ''Mailbox full''\<rparr>])\<rparr>))"
proof -
  let ?tk = "\<lparr>ticketId = JStr ''900'', ticketNumber = JStr ''101''\<rparr>"
  let ?alerts = "[\<lparr>alertTicketNumber = JNum 7, alertReason = ''other''\<rparr>,
                  \<lparr>alertTicketNumber = JNum 101, alertReason = ''Mailbox full''\<rparr>]"
  let ?vu = "\<lparr>histories = Inr (Some [], None), failureAlerts = Inr (Some ?alerts)\<rparr>"
  have sh: "showInt 7 = ''7''" "showInt 101 = ''101''" by code_simp+
  have h1: "histories ?vu = Inr (Some [], None)" by simp
  have h2: "orEmpty (Some ([] :: json list)) = []" "orEmpty (None :: json list option) = []"
    by (simp_all add: orEmpty_def)
  have h4: "failureAlerts ?vu = Inr (Some ?alerts)" by simp
  have h5: "\<exists>f \<in> set ?alerts. jsString (alertTicketNumber f) = jsString (ticketNumber ?tk)"
    by (simp add: sh)
  from verification_reports_matching_alert [OF h1 h2 h4 h5, of exProfile "''ticketUpdate''"]
  show ?thesis by (auto simp: sh)
qed

section \<open>Properties of the access-token cache\<close>

text \<open>
  C10. The cached token response is returned without a request to the token endpoint
  exactly when the cache has an own entry for the profile name whose data has a
  non-empty \<open>access_token\<close> and whose \<open>expiresAt\<close> is strictly later than now; the cache
  is then unchanged. A profile name that only finds a property inherited by the cache
  object makes the call fail without a request. Otherwise, when the endpoint answers
  without an \<open>error\<close> property, the answer is returned after one request and cached
  with \<open>expiresAt = now + (expires_in - 60) * 1000\<close>; a later call then returns it
  from the cache exactly when the token is non-empty and the later time is more than
  60 s before \<open>now + expires_in\<close> seconds.
\<close>

theorem token_cache_contract:
  "((\<exists>dat. getValidAccessToken now post prof c = (Token dat, c, 0)) \<longleftrightarrow>
      (\<exists>e. lookupCache c (profileName prof) = Own e \<and> truthyStr (access_token (cachedData e))
           \<and> now < expiresAt e)) \<and>
   (\<forall>e. lookupCache c (profileName prof) = Own e \<and> truthyStr (access_token (cachedData e))
          \<and> now < expiresAt e \<longrightarrow>
        getValidAccessToken now post prof c = (Token (cachedData e), c, 0)) \<and>
   (lookupCache c (profileName prof) = Inherited \<longrightarrow>
        getValidAccessToken now post prof c = (ThrownTypeError, c, 0)) \<and>
   (\<forall>dat. lookupCache c (profileName prof) \<noteq> Inherited
          \<and> \<not> (\<exists>e. lookupCache c (profileName prof) = Own e
                    \<and> truthyStr (access_token (cachedData e)) \<and> now < expiresAt e)
          \<and> post prof = Inr dat \<and> \<not> truthyStr (tokenError dat) \<longrightarrow>
        getValidAccessToken now post prof c =
          (Token dat,
           c(profileName prof \<mapsto>
              \<lparr>cachedData = dat, expiresAt = now + (expires_in dat - 60) * 1000\<rparr>), 1) \<and>
        (\<forall>later post'.
           (\<exists>dat'. getValidAccessToken later post' prof
                      (fst (snd (getValidAccessToken now post prof c)))
                    = (Token dat', fst (snd (getValidAccessToken now post prof c)), 0))
           \<longleftrightarrow> truthyStr (access_token dat) \<and> later < now + expires_in dat * 1000 - 60000))"
proof -
  let ?n = "profileName prof"
  let ?fresh = "\<exists>e. lookupCache c ?n = Own e \<and> truthyStr (access_token (cachedData e))
                   \<and> now < expiresAt e"
  have refresh_count: "snd (snd (refreshAccessToken t q prof c')) = 1" for t q c'
    by (auto simp: refreshAccessToken_def split: sum.splits option.splits)
  have hit: "getValidAccessToken now post prof c = (Token (cachedData e), c, 0)"
    if "lookupCache c ?n = Own e" "truthyStr (access_token (cachedData e))" "now < expiresAt e"
    for e
    using that by (simp add: getValidAccessToken_def)
  have inh: "getValidAccessToken now post prof c = (ThrownTypeError, c, 0)"
    if "lookupCache c ?n = Inherited"
    using that by (simp add: getValidAccessToken_def)
  have miss: "getValidAccessToken now post prof c = refreshAccessToken now post prof c"
    if "lookupCache c ?n \<noteq> Inherited" "\<not> ?fresh"
    using that by (cases "lookupCache c ?n") (auto simp: getValidAccessToken_def)
  have iff: "(\<exists>dat. getValidAccessToken now post prof c = (Token dat, c, 0)) \<longleftrightarrow> ?fresh"
  proof
    assume "?fresh"
    then show "\<exists>dat. getValidAccessToken now post prof c = (Token dat, c, 0)"
      using hit by blast
  next
    assume a: "\<exists>dat. getValidAccessToken now post prof c = (Token dat, c, 0)"
    show "?fresh"
    proof (rule ccontr)
      assume nf: "\<not> ?fresh"
      show False
      proof (cases "lookupCache c ?n = Inherited")
        case True
        with inh a show False by simp
      next
        case False
        from miss [OF False nf] a refresh_count [of now post c] show False by auto
      qed
    qed
  qed
  have refresh: "getValidAccessToken now post prof c =
          (Token dat,
           c(?n \<mapsto> \<lparr>cachedData = dat, expiresAt = now + (expires_in dat - 60) * 1000\<rparr>), 1) \<and>
        (\<forall>later post'.
           (\<exists>dat'. getValidAccessToken later post' prof
                      (fst (snd (getValidAccessToken now post prof c)))
                    = (Token dat', fst (snd (getValidAccessToken now post prof c)), 0))
           \<longleftrightarrow> truthyStr (access_token dat) \<and> later < now + expires_in dat * 1000 - 60000)"
    if ni: "lookupCache c ?n \<noteq> Inherited" and nf: "\<not> ?fresh"
      and post: "post prof = Inr dat" and ne: "\<not> truthyStr (tokenError dat)"
    for dat
  proof -
    let ?e = "\<lparr>cachedData = dat, expiresAt = now + (expires_in dat - 60) * 1000\<rparr>"
    let ?c = "c(?n \<mapsto> ?e)"
    have run: "getValidAccessToken now post prof c = (Token dat, ?c, 1)"
      using miss [OF ni nf] post ne
      by (auto simp: refreshAccessToken_def truthyStr_def split: option.splits)
    have np: "?n \<noteq> ''__proto__''"
      using ni by (auto simp: lookupCache_def)
    then have own: "lookupCache ?c ?n = Own ?e"
      by (simp add: lookupCache_def)
    have later: "(\<exists>dat'. getValidAccessToken t q prof ?c = (Token dat', ?c, 0))
        \<longleftrightarrow> truthyStr (access_token dat) \<and> t < now + expires_in dat * 1000 - 60000"
      for t q
    proof (cases "truthyStr (access_token dat) \<and> t < expiresAt ?e")
      case True
      then show ?thesis using own by (auto simp: getValidAccessToken_def)
    next
      case False
      then have "getValidAccessToken t q prof ?c = refreshAccessToken t q prof ?c"
        using own by (auto simp: getValidAccessToken_def)
      with refresh_count [of t q ?c] False show ?thesis by auto
    qed
    show ?thesis using run later by simp
  qed
  show ?thesis using iff hit inh refresh by blast
qed

theorem token_cache_contract_witness:
  "getValidAccessToken 1000
     (\<lambda>p. Inr \<lparr>access_token = Some ''tok'', expires_in = 3600, tokenError = None\<rparr>)
     exProfile Map.empty =
     (Token \<lparr>access_token = Some ''tok'', expires_in = 3600, tokenError = None\<rparr>,
      [profileName exProfile \<mapsto>
         \<lparr>cachedData = \<lparr>access_token = Some ''tok'', expires_in = 3600, tokenError = None\<rparr>,
          expiresAt = 3541000\<rparr>], 1) \<and>
   getValidAccessToken 3540999 (\<lambda>p. Inl exTimeout) exProfile
     [profileName exProfile \<mapsto>
         \<lparr>cachedData = \<lparr>access_token = Some ''tok'', expires_in = 3600, tokenError = None\<rparr>,
          expiresAt = 3541000\<rparr>] =
     (Token \<lparr>access_token = Some ''tok'', expires_in = 3600, tokenError = None\<rparr>,
      [profileName exProfile \<mapsto>
         \<lparr>cachedData = \<lparr>access_token = Some ''tok'', expires_in = 3600, tokenError = None\<rparr>,
          expiresAt = 3541000\<rparr>], 0) \<and>
   lookupCache Map.empty (profileName (exProfile\<lparr>profileName := ''constructor''\<rparr>)) = Inherited \<and>
   getValidAccessToken 1000
     (\<lambda>p. Inr \<lparr>access_token = Some ''tok'', expires_in = 3600, tokenError = None\<rparr>)
     (exProfile\<lparr>profileName := ''constructor''\<rparr>) Map.empty =
     (ThrownTypeError, Map.empty, 0)"
proof -
  let ?dat = "\<lparr>access_token = Some ''tok'', expires_in = 3600, tokenError = None\<rparr>"
  let ?c = "[profileName exProfile \<mapsto> \<lparr>cachedData = ?dat, expiresAt = 3541000\<rparr>]"
  let ?q = "exProfile\<lparr>profileName := ''constructor''\<rparr>"
  have name: "profileName exProfile = ''acme''" by (simp add: exProfile_def)
  have undef: "lookupCache Map.empty (profileName exProfile) = Undefined"
    by (simp add: lookupCache_def prototypeKeys_def name)
  have own: "lookupCache ?c (profileName exProfile)
      = Own \<lparr>cachedData = ?dat, expiresAt = 3541000\<rparr>"
    by (simp add: lookupCache_def name)
  have inh: "lookupCache Map.empty (profileName ?q) = Inherited"
    by (simp add: lookupCache_def prototypeKeys_def)
  from token_cache_contract [of 1000 "\<lambda>p. Inr ?dat" exProfile Map.empty] undef
  have one: "getValidAccessToken 1000 (\<lambda>p. Inr ?dat) exProfile Map.empty = (Token ?dat, ?c, 1)"
    by (simp add: truthyStr_def)
  from token_cache_contract [of 3540999 "\<lambda>p. Inl exTimeout" exProfile ?c] own
  have two: "getValidAccessToken 3540999 (\<lambda>p. Inl exTimeout) exProfile ?c = (Token ?dat, ?c, 0)"
    by (simp add: truthyStr_def)
  from token_cache_contract [of 1000 "\<lambda>p. Inr ?dat" ?q Map.empty] inh
  have three: "getValidAccessToken 1000 (\<lambda>p. Inr ?dat) ?q Map.empty
      = (ThrownTypeError, Map.empty, 0)"
    by simp
  show ?thesis using one two three inh by simp
qed

end
